theory Spec2Isabelle
  imports Complex_Main "HOL-Library.Sublist"
begin

section \<open>Data model\<close>

text \<open>
  The post routes of \<^verbatim>\<open>src/routes/posts.js\<close> work on Post documents held in a document
  store. An ObjectId is kept in its canonical text form, so that the source's
  \<^verbatim>\<open>a.toString() !== b.toString()\<close> is inequality of ids. A time is a number of
  milliseconds. A string is a list of characters, one \<^typ>\<open>char\<close> per character.
\<close>

type_synonym objectId = string
type_synonym timestamp = int

text \<open>The authenticated requester, \<^verbatim>\<open>req.user\<close>: the handlers read \<^verbatim>\<open>_id\<close> and \<^verbatim>\<open>role\<close>.\<close>

record user =
  user_id :: objectId
  role :: string

text \<open>An entry of \<^verbatim>\<open>post.likes\<close>.\<close>

record like =
  l_user :: objectId

text \<open>An entry of \<^verbatim>\<open>post.comments\<close>; \<^verbatim>\<open>content\<close> is absent when the request had none.\<close>

record comment =
  c_id :: objectId
  c_user :: objectId
  c_content :: "string option"
  c_createdAt :: timestamp

text \<open>
  A Post document. A field the request body may leave out (\<^verbatim>\<open>undefined\<close> in the source)
  is an option.
\<close>

record post =
  post_id :: objectId
  title :: "string option"
  content :: "string option"
  excerpt :: "string option"
  tags :: "string list"
  category :: "string option"
  status :: string
  featuredImage :: "string option"
  author :: objectId
  views :: nat
  createdAt :: timestamp
  likes :: "like list"
  comments :: "comment list"

text \<open>The collection of posts, in insertion order.\<close>

type_synonym store = "post list"

text \<open>\<^verbatim>\<open>req.body\<close> of the create and update routes.\<close>

record post_body =
  b_title :: "string option"
  b_content :: "string option"
  b_excerpt :: "string option"
  b_tags :: "string option"
  b_category :: "string option"
  b_status :: "string option"
  b_featuredImage :: "string option"

section \<open>Errors and responses\<close>

text \<open>
  What a call into the store or the language runtime can throw. Every handler wraps its
  body in \<^verbatim>\<open>try { ... } catch (error) { res.status(n).json(...) }\<close>.
\<close>

datatype error =
    CastError string
  | ValidationError "string list"
  | SyntaxError string
  | MongoServerError string

fun error_name :: "error \<Rightarrow> string" where
  "error_name (CastError _) = ''CastError''"
| "error_name (ValidationError _) = ''ValidationError''"
| "error_name (SyntaxError _) = ''SyntaxError''"
| "error_name (MongoServerError _) = ''MongoServerError''"

text \<open>\<^verbatim>\<open>error.message\<close>; the library's wording is shortened.\<close>

fun error_message :: "error \<Rightarrow> string" where
  "error_message (CastError v) = ''Cast to ObjectId failed for value '' @ v"
| "error_message (ValidationError ms) = ''Validation failed: '' @ concat ms"
| "error_message (SyntaxError p) = ''Invalid regular expression: '' @ p"
| "error_message (MongoServerError m) = m"

text \<open>
  A number of the language runtime, as far as the routes compute with it: \<^verbatim>\<open>NaN\<close>, the
  two infinities, or a double whose value is a whole number.
\<close>

datatype number = NaN | Whole int | PosInfinity | NegInfinity

record pagination =
  current :: number
  pages :: number
  total :: nat

datatype resp_data =
    NoData
  | PostData post
  | PostsData "post list" pagination
  | LikeData nat bool
  | CommentData comment

record response =
  statusCode :: nat
  success :: bool
  message :: string
  data :: resp_data

definition json_fail :: "nat \<Rightarrow> string \<Rightarrow> response" where
  "json_fail code msg = \<lparr>statusCode = code, success = False, message = msg, data = NoData\<rparr>"

definition json_ok :: "nat \<Rightarrow> string \<Rightarrow> resp_data \<Rightarrow> response" where
  "json_ok code msg d = \<lparr>statusCode = code, success = True, message = msg, data = d\<rparr>"

text \<open>
  The \<^verbatim>\<open>try\<close>/\<^verbatim>\<open>catch\<close> of a handler: a thrown error becomes the response of the
  \<^verbatim>\<open>catch\<close> block with that handler's status code, and the store is as it was.
\<close>

definition try_catch :: "nat \<Rightarrow> store \<Rightarrow> error + (response \<times> store) \<Rightarrow> response \<times> store" where
  "try_catch code db r =
     (case r of Inl e \<Rightarrow> (json_fail code (error_message e), db) | Inr x \<Rightarrow> x)"

section \<open>The document store\<close>

text \<open>
  The store and the object-document mapper are outside the repository. What the handlers
  use of them is modelled here. The cast of a request string to an ObjectId, the case
  folding of a case-insensitive match and the regular-expression engine beyond literal
  characters and the dot (and whether the dot matches a line terminator) are parameters of
  the model: every theorem holds for each choice
  of them.
\<close>

record env =
  castObjectId :: "string \<Rightarrow> objectId option"
  canonicalize :: "char \<Rightarrow> char"
  dot_newline :: "char \<Rightarrow> bool"
  regexp_rest :: "string \<Rightarrow> (string \<Rightarrow> bool) option"

text \<open>\<^verbatim>\<open>Post.findById(id)\<close>: a cast failure is thrown, a missing document is \<^verbatim>\<open>null\<close>.\<close>

definition findById :: "env \<Rightarrow> store \<Rightarrow> string \<Rightarrow> error + post option" where
  "findById env db rid =
     (case castObjectId env rid of
        None \<Rightarrow> Inl (CastError rid)
      | Some i \<Rightarrow> Inr (find (\<lambda>p. post_id p = i) db))"

text \<open>Writing one document back by its \<^verbatim>\<open>_id\<close>, and removing one document by its \<^verbatim>\<open>_id\<close>.\<close>

fun updateOne :: "objectId \<Rightarrow> post \<Rightarrow> store \<Rightarrow> store" where
  "updateOne i p' [] = []"
| "updateOne i p' (q # qs) = (if post_id q = i then p' # qs else q # updateOne i p' qs)"

fun deleteOne :: "objectId \<Rightarrow> store \<Rightarrow> store" where
  "deleteOne i [] = []"
| "deleteOne i (q # qs) = (if post_id q = i then qs else q # deleteOne i qs)"

text \<open>
  Modelled from the spec: the Post schema (\<^verbatim>\<open>models/Post.js\<close> is not among the sources).
  Section 3 of the specification gives the constraints: \<^verbatim>\<open>title\<close> of 1 to 200 characters,
  \<^verbatim>\<open>content\<close> of 1 to 10000, \<^verbatim>\<open>category\<close> of 1 to 50, \<^verbatim>\<open>status\<close> one of draft, published,
  archived. Each validator returns the messages of the violations.
\<close>

definition validate_length :: "string \<Rightarrow> nat \<Rightarrow> nat \<Rightarrow> string option \<Rightarrow> string list" where
  "validate_length path lo hi v =
     (case v of
        None \<Rightarrow> [path @ '' is required'']
      | Some s \<Rightarrow> (if length s < lo \<or> hi < length s then [path @ '' has an invalid length''] else []))"

definition validate_status :: "string \<Rightarrow> string list" where
  "validate_status s =
     (if s \<in> set [''draft'', ''published'', ''archived''] then [] else [''status is not a valid enum value''])"

definition validate_post :: "post \<Rightarrow> string list" where
  "validate_post p =
     validate_length ''title'' 1 200 (title p) @
     validate_length ''content'' 1 10000 (content p) @
     validate_length ''category'' 1 50 (category p) @
     validate_status (status p)"

text \<open>
  Update validators (\<^verbatim>\<open>runValidators: true\<close>) check the paths the update sets; a key whose
  value is \<^verbatim>\<open>undefined\<close> is not part of the update.
\<close>

definition validate_provided :: "string \<Rightarrow> nat \<Rightarrow> nat \<Rightarrow> string option \<Rightarrow> string list" where
  "validate_provided path lo hi v = (case v of None \<Rightarrow> [] | Some s \<Rightarrow> validate_length path lo hi (Some s))"

definition validate_update :: "post_body \<Rightarrow> string list" where
  "validate_update b =
     validate_provided ''title'' 1 200 (b_title b) @
     validate_provided ''content'' 1 10000 (b_content b) @
     validate_provided ''category'' 1 50 (b_category b) @
     (case b_status b of None \<Rightarrow> [] | Some s \<Rightarrow> validate_status s)"

section \<open>Strings of the language runtime\<close>

text \<open>\<^verbatim>\<open>s.split(',')\<close>: the pieces between the commas; an empty string gives one empty piece.\<close>

fun split_comma :: "string \<Rightarrow> string list" where
  "split_comma [] = [[]]"
| "split_comma (c # cs) =
     (if c = CHR '','' then [] # split_comma cs
      else (case split_comma cs of [] \<Rightarrow> [[c]] | w # ws \<Rightarrow> (c # w) # ws))"

text \<open>
  White space and line terminators of \<^verbatim>\<open>String.prototype.trim\<close> among the characters below
  256: tab, line feed, vertical tab, form feed, carriage return, space, no-break space.
\<close>

definition is_white_space :: "char \<Rightarrow> bool" where
  "is_white_space c \<longleftrightarrow> of_char c \<in> set [9, 10, 11, 12, 13, 32, 160 :: nat]"

definition trim :: "string \<Rightarrow> string" where
  "trim s = rev (dropWhile is_white_space (rev (dropWhile is_white_space s)))"

text \<open>\<^verbatim>\<open>tags.split(',').map(tag => tag.trim())\<close>\<close>

definition split_tags :: "string \<Rightarrow> string list" where
  "split_tags t = map trim (split_comma t)"

text \<open>The truthiness of an optional string: \<^verbatim>\<open>undefined\<close> and the empty string are falsy.\<close>

definition truthy :: "string option \<Rightarrow> bool" where
  "truthy v = (case v of None \<Rightarrow> False | Some s \<Rightarrow> s \<noteq> [])"

section \<open>Update and deletion of a post\<close>

text \<open>The update document of the PUT route, applied to the stored post.\<close>

definition provided :: "'a option \<Rightarrow> 'a option \<Rightarrow> 'a option" where
  "provided new old = (case new of None \<Rightarrow> old | Some v \<Rightarrow> Some v)"

definition apply_update :: "post_body \<Rightarrow> post \<Rightarrow> post \<Rightarrow> post" where
  "apply_update b p q =
     q\<lparr>title := provided (b_title b) (title q),
       content := provided (b_content b) (content q),
       excerpt := provided (b_excerpt b) (excerpt q),
       tags := (if truthy (b_tags b) then split_tags (the (b_tags b)) else tags p),
       category := provided (b_category b) (category q),
       status := (case b_status b of None \<Rightarrow> status q | Some s \<Rightarrow> s),
       featuredImage := provided (b_featuredImage b) (featuredImage q)\<rparr>"

text \<open>
  \<^verbatim>\<open>Post.findByIdAndUpdate(id, update, { new: true, runValidators: true })\<close>: the updated
  document, or \<^verbatim>\<open>null\<close> when there is none with that id.
\<close>

definition findByIdAndUpdate ::
  "env \<Rightarrow> store \<Rightarrow> string \<Rightarrow> post_body \<Rightarrow> post \<Rightarrow> error + (post option \<times> store)" where
  "findByIdAndUpdate env db rid b p =
     (case castObjectId env rid of
        None \<Rightarrow> Inl (CastError rid)
      | Some i \<Rightarrow>
          (if validate_update b \<noteq> [] then Inl (ValidationError (validate_update b))
           else (case find (\<lambda>q. post_id q = i) db of
                   None \<Rightarrow> Inr (None, db)
                 | Some q \<Rightarrow> Inr (Some (apply_update b p q), updateOne i (apply_update b p q) db))))"

text \<open>\<^verbatim>\<open>Post.findByIdAndDelete(id)\<close>\<close>

definition findByIdAndDelete :: "env \<Rightarrow> store \<Rightarrow> string \<Rightarrow> error + store" where
  "findByIdAndDelete env db rid =
     (case castObjectId env rid of
        None \<Rightarrow> Inl (CastError rid)
      | Some i \<Rightarrow> Inr (deleteOne i db))"

text \<open>The owner-or-admin check both routes make.\<close>

definition not_authorized :: "objectId \<Rightarrow> user \<Rightarrow> bool" where
  "not_authorized owner u \<longleftrightarrow> owner \<noteq> user_id u \<and> role u \<noteq> ''admin''"

text \<open>\<^verbatim>\<open>router.put('/:id', auth, ...)\<close>\<close>

definition put_post :: "env \<Rightarrow> store \<Rightarrow> user \<Rightarrow> string \<Rightarrow> post_body \<Rightarrow> response \<times> store" where
  "put_post env db u rid b =
     try_catch 400 db
       (case findById env db rid of
          Inl e \<Rightarrow> Inl e
        | Inr None \<Rightarrow> Inr (json_fail 404 ''Post not found'', db)
        | Inr (Some p) \<Rightarrow>
            (if not_authorized (author p) u
             then Inr (json_fail 403 ''Not authorized to update this post'', db)
             else (case findByIdAndUpdate env db rid b p of
                     Inl e \<Rightarrow> Inl e
                   | Inr (None, db') \<Rightarrow> Inr (json_ok 200 ''Post updated successfully'' NoData, db')
                   | Inr (Some p', db') \<Rightarrow>
                       Inr (json_ok 200 ''Post updated successfully'' (PostData p'), db'))))"

text \<open>\<^verbatim>\<open>router.delete('/:id', auth, ...)\<close>\<close>

definition delete_post :: "env \<Rightarrow> store \<Rightarrow> user \<Rightarrow> string \<Rightarrow> response \<times> store" where
  "delete_post env db u rid =
     try_catch 500 db
       (case findById env db rid of
          Inl e \<Rightarrow> Inl e
        | Inr None \<Rightarrow> Inr (json_fail 404 ''Post not found'', db)
        | Inr (Some p) \<Rightarrow>
            (if not_authorized (author p) u
             then Inr (json_fail 403 ''Not authorized to delete this post'', db)
             else (case findByIdAndDelete env db rid of
                     Inl e \<Rightarrow> Inl e
                   | Inr db' \<Rightarrow> Inr (json_ok 200 ''Post deleted successfully'' NoData, db'))))"

section \<open>Creation of a post\<close>

text \<open>
  \<^verbatim>\<open>router.post('/', auth, ...)\<close>. The new document's \<^verbatim>\<open>_id\<close> and the current time come from
  the mapper; they are inputs here. Modelled from the spec: the defaults of the Post schema
  (\<^verbatim>\<open>models/Post.js\<close> is not among the sources): no views, likes or comments, and
  \<^verbatim>\<open>createdAt\<close> set at creation.
\<close>

definition new_Post :: "user \<Rightarrow> objectId \<Rightarrow> timestamp \<Rightarrow> post_body \<Rightarrow> post" where
  "new_Post u gen_id now b =
     \<lparr>post_id = gen_id,
      title = b_title b,
      content = b_content b,
      excerpt = b_excerpt b,
      tags = (if truthy (b_tags b) then split_tags (the (b_tags b)) else []),
      category = b_category b,
      status = (if truthy (b_status b) then the (b_status b) else ''draft''),
      featuredImage = b_featuredImage b,
      author = user_id u,
      views = 0,
      createdAt = now,
      likes = [],
      comments = []\<rparr>"

definition create_post ::
  "store \<Rightarrow> user \<Rightarrow> objectId \<Rightarrow> timestamp \<Rightarrow> post_body \<Rightarrow> response \<times> store" where
  "create_post db u gen_id now b =
     try_catch 400 db
       (if validate_post (new_Post u gen_id now b) \<noteq> []
        then Inl (ValidationError (validate_post (new_Post u gen_id now b)))
        else Inr (json_ok 201 ''Post created successfully'' (PostData (new_Post u gen_id now b)),
                  db @ [new_Post u gen_id now b]))"

section \<open>Fetching one post\<close>

text \<open>\<^verbatim>\<open>router.get('/:id', ...)\<close>\<close>

definition get_post :: "env \<Rightarrow> store \<Rightarrow> string \<Rightarrow> response \<times> store" where
  "get_post env db rid =
     try_catch 500 db
       (case findById env db rid of
          Inl e \<Rightarrow> Inl e
        | Inr None \<Rightarrow> Inr (json_fail 404 ''Post not found'', db)
        | Inr (Some p) \<Rightarrow>
            Inr (json_ok 200 [] (PostData (p\<lparr>views := views p + 1\<rparr>)),
                 updateOne (post_id p) (p\<lparr>views := views p + 1\<rparr>) db))"

text \<open>
  The global error handler of the application, for an error that reaches it:
  \<^verbatim>\<open>ValidationError\<close> and \<^verbatim>\<open>CastError\<close> are answered with 400, anything else with
  \<^verbatim>\<open>err.status || 500\<close> (none of the errors here carries a status).
\<close>

definition global_error_handler :: "error \<Rightarrow> response" where
  "global_error_handler err =
     (if error_name err = ''ValidationError'' then json_fail 400 ''Validation Error''
      else if error_name err = ''CastError'' then json_fail 400 ''Invalid ID format''
      else json_fail 500 (if error_message err \<noteq> [] then error_message err else ''Internal Server Error''))"

section \<open>Likes\<close>

text \<open>\<^verbatim>\<open>xs.findIndex(f)\<close>: the first index where \<^verbatim>\<open>f\<close> holds, or -1.\<close>

fun findIndex :: "('a \<Rightarrow> bool) \<Rightarrow> 'a list \<Rightarrow> int" where
  "findIndex f [] = - 1"
| "findIndex f (x # xs) =
     (if f x then 0 else (if findIndex f xs = - 1 then - 1 else findIndex f xs + 1))"

text \<open>\<^verbatim>\<open>xs.splice(i, 1)\<close> for an index in range: the list without its element i.\<close>

definition splice1 :: "nat \<Rightarrow> 'a list \<Rightarrow> 'a list" where
  "splice1 i xs = take i xs @ drop (Suc i) xs"

definition toggled_likes :: "user \<Rightarrow> like list \<Rightarrow> like list" where
  "toggled_likes u ls =
     (if findIndex (\<lambda>l. l_user l = user_id u) ls > - 1
      then splice1 (nat (findIndex (\<lambda>l. l_user l = user_id u) ls)) ls
      else ls @ [\<lparr>l_user = user_id u\<rparr>])"

text \<open>\<^verbatim>\<open>router.post('/:id/like', auth, ...)\<close>\<close>

definition like_post :: "env \<Rightarrow> store \<Rightarrow> user \<Rightarrow> string \<Rightarrow> response \<times> store" where
  "like_post env db u rid =
     try_catch 500 db
       (case findById env db rid of
          Inl e \<Rightarrow> Inl e
        | Inr None \<Rightarrow> Inr (json_fail 404 ''Post not found'', db)
        | Inr (Some p) \<Rightarrow>
            Inr (json_ok 200
                   (if findIndex (\<lambda>l. l_user l = user_id u) (likes p) > - 1
                    then ''Post unliked'' else ''Post liked'')
                   (LikeData (length (toggled_likes u (likes p)))
                             (findIndex (\<lambda>l. l_user l = user_id u) (likes p) = - 1)),
                 updateOne (post_id p) (p\<lparr>likes := toggled_likes u (likes p)\<rparr>) db))"

section \<open>Comments\<close>

text \<open>
  Modelled from the spec: the comment sub-schema of the Post schema (\<^verbatim>\<open>models/Post.js\<close> is
  not among the sources). Section 4.7 of the specification requires a non-empty
  \<^verbatim>\<open>content\<close>; the route itself makes no check, so the check is the schema's, made when the
  post is saved.
\<close>

definition validate_comment :: "comment \<Rightarrow> string list" where
  "validate_comment c = (if truthy (c_content c) then [] else [''comment content is required''])"

text \<open>
  \<^verbatim>\<open>router.post('/:id/comment', auth, ...)\<close>. The \<^verbatim>\<open>_id\<close> of the new comment and its
  \<^verbatim>\<open>createdAt\<close> are set by the mapper; they are inputs here.
\<close>

definition add_comment ::
  "env \<Rightarrow> store \<Rightarrow> user \<Rightarrow> objectId \<Rightarrow> timestamp \<Rightarrow> string \<Rightarrow> string option \<Rightarrow> response \<times> store" where
  "add_comment env db u gen_id now rid body_content =
     try_catch 400 db
       (case findById env db rid of
          Inl e \<Rightarrow> Inl e
        | Inr None \<Rightarrow> Inr (json_fail 404 ''Post not found'', db)
        | Inr (Some p) \<Rightarrow>
            (let newComment = \<lparr>c_id = gen_id, c_user = user_id u,
                               c_content = body_content, c_createdAt = now\<rparr>;
                 p' = p\<lparr>comments := comments p @ [newComment]\<rparr>
             in if validate_comment newComment \<noteq> []
                then Inl (ValidationError (validate_comment newComment))
                else Inr (json_ok 201 ''Comment added successfully''
                            (CommentData (last (comments p'))),
                          updateOne (post_id p) p' db)))"

text \<open>
  \<^verbatim>\<open>post.comments.id(commentId)\<close>: the first comment with that \<^verbatim>\<open>_id\<close>; \<^verbatim>\<open>null\<close> when there
  is none, also when the string is no ObjectId.
\<close>

definition comments_id :: "env \<Rightarrow> comment list \<Rightarrow> string \<Rightarrow> comment option" where
  "comments_id env cs cid =
     (case castObjectId env cid of None \<Rightarrow> None | Some i \<Rightarrow> find (\<lambda>c. c_id c = i) cs)"

text \<open>\<^verbatim>\<open>comment.remove()\<close> pulls from the parent array the entries with the comment's \<^verbatim>\<open>_id\<close>.\<close>

definition remove_comment :: "comment \<Rightarrow> comment list \<Rightarrow> comment list" where
  "remove_comment c cs = filter (\<lambda>x. c_id x \<noteq> c_id c) cs"

text \<open>\<^verbatim>\<open>router.delete('/:id/comment/:commentId', auth, ...)\<close>\<close>

definition delete_comment :: "env \<Rightarrow> store \<Rightarrow> user \<Rightarrow> string \<Rightarrow> string \<Rightarrow> response \<times> store" where
  "delete_comment env db u rid cid =
     try_catch 500 db
       (case findById env db rid of
          Inl e \<Rightarrow> Inl e
        | Inr None \<Rightarrow> Inr (json_fail 404 ''Post not found'', db)
        | Inr (Some p) \<Rightarrow>
            (case comments_id env (comments p) cid of
               None \<Rightarrow> Inr (json_fail 404 ''Comment not found'', db)
             | Some c \<Rightarrow>
                 (if not_authorized (c_user c) u
                  then Inr (json_fail 403 ''Not authorized to delete this comment'', db)
                  else Inr (json_ok 200 ''Comment deleted successfully'' NoData,
                            updateOne (post_id p)
                              (p\<lparr>comments := remove_comment c (comments p)\<rparr>) db))))"

section \<open>Listing posts\<close>

subsection \<open>Numbers of the query string\<close>

text \<open>
  The digits of \<^verbatim>\<open>parseInt(s)\<close> with no radix: leading white space is skipped, a sign is
  read, a \<^verbatim>\<open>0x\<close> or \<^verbatim>\<open>0X\<close> prefix selects base 16, and the longest run of digits is
  the integer that was written; with no digit, as for a missing parameter, there is none.
\<close>

definition digit_value :: "nat \<Rightarrow> char \<Rightarrow> nat option" where
  "digit_value radix c =
     (let n = (of_char c :: nat);
          v = (if 48 \<le> n \<and> n \<le> 57 then Some (n - 48)
               else if 97 \<le> n \<and> n \<le> 122 then Some (n - 87)
               else if 65 \<le> n \<and> n \<le> 90 then Some (n - 55)
               else None)
      in (case v of None \<Rightarrow> None | Some d \<Rightarrow> (if d < radix then Some d else None)))"

fun leading_digits :: "nat \<Rightarrow> string \<Rightarrow> nat list" where
  "leading_digits radix [] = []"
| "leading_digits radix (c # cs) =
     (case digit_value radix c of None \<Rightarrow> [] | Some d \<Rightarrow> d # leading_digits radix cs)"

definition digits_value :: "nat \<Rightarrow> nat list \<Rightarrow> int option" where
  "digits_value radix ds =
     (if ds = [] then None else Some (int (foldl (\<lambda>a d. a * radix + d) 0 ds)))"

definition parse_unsigned :: "string \<Rightarrow> int option" where
  "parse_unsigned s =
     (if take 2 s = ''0x'' \<or> take 2 s = ''0X''
      then digits_value 16 (leading_digits 16 (drop 2 s))
      else digits_value 10 (leading_digits 10 s))"

definition parse_integer :: "string option \<Rightarrow> int option" where
  "parse_integer v =
     (case v of
        None \<Rightarrow> None
      | Some s \<Rightarrow>
          (case dropWhile is_white_space s of
             [] \<Rightarrow> None
           | c # cs \<Rightarrow>
               (if c = CHR ''-'' then map_option uminus (parse_unsigned cs)
                else if c = CHR ''+'' then parse_unsigned cs
                else parse_unsigned (c # cs))))"

text \<open>
  The result of \<^verbatim>\<open>parseInt\<close> is a double: the integer that was written, rounded to 53
  significant bits, to the nearest value and to the even one of two nearest, and an
  infinity from \<open>2 ^ 1024\<close> on. (For a decimal numeral of more than 20 significant digits
  the language lets an implementation round the digits first; the model rounds the exact
  value.)
\<close>

fun bit_length :: "nat \<Rightarrow> nat" where
  "bit_length n = (if n = 0 then 0 else Suc (bit_length (n div 2)))"

definition round_to_double :: "nat \<Rightarrow> nat" where
  "round_to_double n =
     (if bit_length n \<le> 53 then n
      else (let e = bit_length n - 53;
                q = n div 2 ^ e;
                r = n mod 2 ^ e;
                half = 2 ^ (e - 1)
            in (if half < r \<or> (r = half \<and> odd q) then q + 1 else q) * 2 ^ e))"

definition to_Number :: "int \<Rightarrow> number" where
  "to_Number i =
     (if 2 ^ 1024 \<le> round_to_double (nat \<bar>i\<bar>)
      then (if i < 0 then NegInfinity else PosInfinity)
      else Whole (if i < 0 then - int (round_to_double (nat \<bar>i\<bar>))
                else int (round_to_double (nat \<bar>i\<bar>))))"

definition parseInt :: "string option \<Rightarrow> number" where
  "parseInt v = (case parse_integer v of None \<Rightarrow> NaN | Some i \<Rightarrow> to_Number i)"

text \<open>\<^verbatim>\<open>parseInt(x) || d\<close>: \<^verbatim>\<open>NaN\<close> and 0 are falsy.\<close>

definition or_default :: "number \<Rightarrow> number \<Rightarrow> number" where
  "or_default v d = (if v = NaN \<or> v = Whole 0 then d else v)"

text \<open>
  \<^verbatim>\<open>x - 1\<close> and \<^verbatim>\<open>x * y\<close> on these numbers: the exact result rounded as above; an
  infinity stays one, and 0 times an infinity is \<^verbatim>\<open>NaN\<close>.
\<close>

fun num_minus_one :: "number \<Rightarrow> number" where
  "num_minus_one (Whole x) = to_Number (x - 1)"
| "num_minus_one v = v"

fun is_negative :: "number \<Rightarrow> bool" where
  "is_negative (Whole x) = (x < 0)"
| "is_negative NegInfinity = True"
| "is_negative v = False"

fun num_times :: "number \<Rightarrow> number \<Rightarrow> number" where
  "num_times (Whole x) (Whole y) = to_Number (x * y)"
| "num_times v w =
     (if v = NaN \<or> w = NaN \<or> v = Whole 0 \<or> w = Whole 0 then NaN
      else if is_negative v = is_negative w then PosInfinity else NegInfinity)"

subsection \<open>The regular expression of the category filter\<close>

text \<open>
  \<^verbatim>\<open>new RegExp(category, 'i')\<close> takes the parameter as a pattern. Modelled are the patterns
  made of the dot and of characters that are no syntax character: each such character
  matches the characters with the same case folding, the dot matches every character that
  is no line terminator, and the pattern is looked for anywhere in the subject. A pattern
  with another syntax character goes to \<^const>\<open>regexp_rest\<close>, which compiles it or
  rejects it.
\<close>

definition other_syntax_characters :: "char set" where
  "other_syntax_characters = set ''^$*+?()[]{}|'' \<union> {CHR 0x5C}"

definition is_line_terminator :: "char \<Rightarrow> bool" where
  "is_line_terminator c \<longleftrightarrow> of_char c \<in> set [10, 13 :: nat]"

definition atom_matches :: "env \<Rightarrow> char \<Rightarrow> char \<Rightarrow> bool" where
  "atom_matches env a c =
     (if a = CHR ''.'' then (if is_line_terminator c then dot_newline env c else True)
      else canonicalize env a = canonicalize env c)"

fun matches_at :: "env \<Rightarrow> string \<Rightarrow> string \<Rightarrow> bool" where
  "matches_at env [] s = True"
| "matches_at env (a # as) [] = False"
| "matches_at env (a # as) (c # cs) = (atom_matches env a c \<and> matches_at env as cs)"

fun matches_somewhere :: "env \<Rightarrow> string \<Rightarrow> string \<Rightarrow> bool" where
  "matches_somewhere env pat [] = matches_at env pat []"
| "matches_somewhere env pat (c # cs) =
     (matches_at env pat (c # cs) \<or> matches_somewhere env pat cs)"

definition RegExp_i :: "env \<Rightarrow> string \<Rightarrow> error + (string \<Rightarrow> bool)" where
  "RegExp_i env pat =
     (if set pat \<inter> other_syntax_characters = {} then Inr (matches_somewhere env pat)
      else (case regexp_rest env pat of
              None \<Rightarrow> Inl (SyntaxError pat)
            | Some t \<Rightarrow> Inr t))"

subsection \<open>The query\<close>

text \<open>\<^verbatim>\<open>req.query\<close> of the list route.\<close>

record list_query =
  q_page :: "string option"
  q_limit :: "string option"
  q_category :: "string option"
  q_tags :: "string option"
  q_status :: "string option"
  q_author :: "string option"

text \<open>The filter object \<^verbatim>\<open>query\<close>; a key that was not set is \<open>None\<close>.\<close>

record mongo_query =
  mq_status :: "string option"
  mq_category :: "(string \<Rightarrow> bool) option"
  mq_tags :: "string list option"
  mq_author :: "string option"

text \<open>
  The destructuring \<^verbatim>\<open>status = 'published'\<close> gives the default to a missing parameter
  only; each \<^verbatim>\<open>if (x) query.x = ...\<close> then skips a falsy value, the empty string included.
\<close>

definition status_param :: "list_query \<Rightarrow> string option" where
  "status_param q = (case q_status q of None \<Rightarrow> Some ''published'' | Some s \<Rightarrow> Some s)"

definition build_query :: "env \<Rightarrow> list_query \<Rightarrow> error + mongo_query" where
  "build_query env q =
     (case (if truthy (q_category q) then map_sum id Some (RegExp_i env (the (q_category q)))
            else Inr None) of
        Inl e \<Rightarrow> Inl e
      | Inr cat \<Rightarrow>
          Inr \<lparr>mq_status = (if truthy (status_param q) then status_param q else None),
               mq_category = cat,
               mq_tags = (if truthy (q_tags q) then Some (split_comma (the (q_tags q))) else None),
               mq_author = (if truthy (q_author q) then q_author q else None)\<rparr>)"

text \<open>
  The store casts the \<^verbatim>\<open>author\<close> of the filter to an ObjectId when the query runs, and
  throws when that fails.
\<close>

definition cast_author :: "env \<Rightarrow> mongo_query \<Rightarrow> error + objectId option" where
  "cast_author env mq =
     (case mq_author mq of
        None \<Rightarrow> Inr None
      | Some a \<Rightarrow> (case castObjectId env a of None \<Rightarrow> Inl (CastError a) | Some i \<Rightarrow> Inr (Some i)))"

text \<open>
  A document matches the filter when it matches every key that is set: equal status, a
  category the regular expression matches, a tag among the listed ones (\<^verbatim>\<open>$in\<close>), the
  given author.
\<close>

definition matches :: "mongo_query \<Rightarrow> objectId option \<Rightarrow> post \<Rightarrow> bool" where
  "matches mq a p \<longleftrightarrow>
     (case mq_status mq of None \<Rightarrow> True | Some s \<Rightarrow> status p = s) \<and>
     (case mq_category mq of None \<Rightarrow> True
        | Some t \<Rightarrow> (case category p of None \<Rightarrow> False | Some c \<Rightarrow> t c)) \<and>
     (case mq_tags mq of None \<Rightarrow> True | Some ts \<Rightarrow> (\<exists>x \<in> set (tags p). x \<in> set ts)) \<and>
     (case a of None \<Rightarrow> True | Some i \<Rightarrow> author p = i)"

text \<open>
  \<^verbatim>\<open>Post.find(query).sort({ createdAt: -1 }).skip(skip).limit(limit)\<close>. The store takes
  skip and limit as 64-bit integers and rejects a number that is none, and a negative
  skip; a limit of 0 is no limit and a negative limit \<open>n\<close> asks for at most \<open>- n\<close>
  documents. Documents with the same \<^verbatim>\<open>createdAt\<close> stay in store order.
\<close>

definition int64 :: "number \<Rightarrow> int option" where
  "int64 v = (case v of Whole i \<Rightarrow> (if \<bar>i\<bar> < 2 ^ 63 then Some i else None) | _ \<Rightarrow> None)"

definition Post_find :: "env \<Rightarrow> store \<Rightarrow> mongo_query \<Rightarrow> number \<Rightarrow> number \<Rightarrow> error + post list" where
  "Post_find env db mq skip limit =
     (case cast_author env mq of
        Inl e \<Rightarrow> Inl e
      | Inr a \<Rightarrow>
          (case int64 skip of
             None \<Rightarrow> Inl (MongoServerError ''skip is not a 64-bit integer'')
           | Some sk \<Rightarrow>
               (case int64 limit of
                  None \<Rightarrow> Inl (MongoServerError ''limit is not a 64-bit integer'')
                | Some n \<Rightarrow>
                    (if sk < 0 then Inl (MongoServerError ''Skip value must be non-negative'')
                     else Inr (if n = 0
                               then drop (nat sk)
                                      (sort_key (\<lambda>p. - createdAt p) (filter (matches mq a) db))
                               else take (nat \<bar>n\<bar>)
                                      (drop (nat sk)
                                         (sort_key (\<lambda>p. - createdAt p)
                                            (filter (matches mq a) db))))))))"

text \<open>\<^verbatim>\<open>Post.countDocuments(query)\<close>\<close>

definition countDocuments :: "env \<Rightarrow> store \<Rightarrow> mongo_query \<Rightarrow> error + nat" where
  "countDocuments env db mq =
     (case cast_author env mq of
        Inl e \<Rightarrow> Inl e
      | Inr a \<Rightarrow> Inr (length (filter (matches mq a) db)))"

text \<open>
  \<^verbatim>\<open>Math.ceil(total / limit)\<close>. A count divided by an infinity is 0, by 0 it is an
  infinity (\<^verbatim>\<open>NaN\<close> for 0 by 0). For a count below \<open>2 ^ 53\<close>, as every count of a
  collection is, the rounding of the quotient does not change its ceiling.
\<close>

definition page_count :: "nat \<Rightarrow> number \<Rightarrow> number" where
  "page_count n limit =
     (case limit of
        NaN \<Rightarrow> NaN
      | Whole l \<Rightarrow> (if l = 0 then (if n = 0 then NaN else PosInfinity)
                  else Whole \<lceil>real n / real_of_int l\<rceil>)
      | PosInfinity \<Rightarrow> Whole 0
      | NegInfinity \<Rightarrow> Whole 0)"

text \<open>\<^verbatim>\<open>router.get('/', ...)\<close>\<close>

definition list_posts :: "env \<Rightarrow> store \<Rightarrow> list_query \<Rightarrow> response \<times> store" where
  "list_posts env db q =
     try_catch 500 db
       (let page = or_default (parseInt (q_page q)) (Whole 1);
            limit = or_default (parseInt (q_limit q)) (Whole 10);
            skip = num_times (num_minus_one page) limit
        in (case build_query env q of
              Inl e \<Rightarrow> Inl e
            | Inr mq \<Rightarrow>
                (case Post_find env db mq skip limit of
                   Inl e \<Rightarrow> Inl e
                 | Inr posts \<Rightarrow>
                     (case countDocuments env db mq of
                        Inl e \<Rightarrow> Inl e
                      | Inr n \<Rightarrow>
                          Inr (json_ok 200 []
                                 (PostsData posts
                                    \<lparr>current = page, pages = page_count n limit, total = n\<rparr>),
                               db)))))"

section \<open>Notions of the specification and a concrete environment\<close>

text \<open>
  The specification's "case-insensitive substring": some run of characters of the subject
  equals the parameter when case is folded.
\<close>

definition ci_substring :: "env \<Rightarrow> string \<Rightarrow> string \<Rightarrow> bool" where
  "ci_substring env needle hay \<longleftrightarrow> sublist (map (canonicalize env) needle) (map (canonicalize env) hay)"

text \<open>The posts a response carries, none when it carries no page.\<close>

definition returned_posts :: "response \<Rightarrow> post list" where
  "returned_posts r = (case data r of PostsData posts pg \<Rightarrow> posts | _ \<Rightarrow> [])"

text \<open>
  One choice of the parameters, for evaluating the handlers on concrete requests: an
  ObjectId is a string of 24 lower-case hexadecimal digits, case folding maps the letters
  a to z to upper case, the dot matches no line terminator and every pattern with a syntax
  character other than the dot is rejected.
\<close>

definition ascii_upper :: "char \<Rightarrow> char" where
  "ascii_upper c =
     (case map_of (zip ''abcdefghijklmnopqrstuvwxyz'' ''ABCDEFGHIJKLMNOPQRSTUVWXYZ'') c of
        None \<Rightarrow> c
      | Some C \<Rightarrow> C)"

definition hex24 :: "string \<Rightarrow> objectId option" where
  "hex24 s = (if length s = 24 \<and> (\<forall>c \<in> set s. c \<in> set ''0123456789abcdef'') then Some s else None)"

definition test_env :: env where
  "test_env = \<lparr>castObjectId = hex24, canonicalize = ascii_upper,
                dot_newline = (\<lambda>c. False), regexp_rest = (\<lambda>pat. None)\<rparr>"

text \<open>A post by author \<open>a\<close> with id \<open>i\<close>, category \<open>c\<close>, status \<open>s\<close> and creation time \<open>t\<close>.\<close>

definition sample_post :: "objectId \<Rightarrow> objectId \<Rightarrow> string \<Rightarrow> string \<Rightarrow> timestamp \<Rightarrow> post" where
  "sample_post i a c s t =
     \<lparr>post_id = i, title = Some ''Wells'', content = Some ''Levels are falling'',
      excerpt = None, tags = [''water''], category = Some c, status = s,
      featuredImage = None, author = a, views = 0, createdAt = t, likes = [], comments = []\<rparr>"

definition empty_body :: post_body where
  "empty_body = \<lparr>b_title = None, b_content = None, b_excerpt = None, b_tags = None,
                  b_category = None, b_status = None, b_featuredImage = None\<rparr>"

definition empty_query :: list_query where
  "empty_query = \<lparr>q_page = None, q_limit = None, q_category = None, q_tags = None,
                   q_status = None, q_author = None\<rparr>"

text \<open>Three requesters and the id of a post.\<close>

definition alice :: user where
  "alice = \<lparr>user_id = ''a11ce0000000000000000001'', role = ''user''\<rparr>"

definition bob :: user where
  "bob = \<lparr>user_id = ''b0b000000000000000000002'', role = ''user''\<rparr>"

definition carol :: user where
  "carol = \<lparr>user_id = ''ca601000000000000000003c'', role = ''admin''\<rparr>"

definition oid_a :: objectId where
  "oid_a = ''aaaaaaaaaaaaaaaaaaaaaaaa''"

text \<open>A store with one post, written by \<^const>\<open>alice\<close>.\<close>

definition alice_post :: post where
  "alice_post = sample_post oid_a (user_id alice) ''Water'' ''published'' 5"

text \<open>The same post once \<^const>\<open>bob\<close> has liked it.\<close>

definition liked_post :: post where
  "liked_post = alice_post\<lparr>likes := [\<lparr>l_user = user_id bob\<rparr>]\<rparr>"

text \<open>The decimal numeral of a natural number, as a client writes it in a query string.\<close>

fun decimal :: "nat \<Rightarrow> string" where
  "decimal n =
     (if n < 10 then [char_of (48 + n)] else decimal (n div 10) @ [char_of (48 + n mod 10)])"

text \<open>Twelve published posts, with ids and creation times 0 to 11.\<close>

definition numbered_post :: "nat \<Rightarrow> post" where
  "numbered_post n =
     sample_post (''00000000000000000000000'' @ [''0123456789ab'' ! n]) (user_id alice)
       ''Water'' ''published'' (int n)"

definition twelve_posts :: store where
  "twelve_posts = map numbered_post [0, 1, 2, 3, 4, 5, 6, 7, 8, 9, 10, 11]"

text \<open>
  The specification's "split on commas": pieces without a comma that give the string back
  when joined with commas. And "trimmed of surrounding white space": the piece without a
  leading and a trailing run of white space.
\<close>

fun join_comma :: "string list \<Rightarrow> string" where
  "join_comma [] = []"
| "join_comma [w] = w"
| "join_comma (w # v # ws) = w @ CHR '','' # join_comma (v # ws)"

definition is_trimmed_from :: "string \<Rightarrow> string \<Rightarrow> bool" where
  "is_trimmed_from w s \<longleftrightarrow>
     (\<exists>pre suf. s = pre @ w @ suf \<and> (\<forall>c \<in> set pre. is_white_space c) \<and>
        (\<forall>c \<in> set suf. is_white_space c)) \<and>
     (w = [] \<or> (\<not> is_white_space (hd w) \<and> \<not> is_white_space (last w)))"

text \<open>A request body that passes validation, and the same with an empty \<^verbatim>\<open>tags\<close> string.\<close>

definition valid_body :: post_body where
  "valid_body = \<lparr>b_title = Some ''Wells'', b_content = Some ''Levels are falling'',
                  b_excerpt = None, b_tags = Some '' rain ,aquifer'', b_category = Some ''Water'',
                  b_status = None, b_featuredImage = None\<rparr>"

definition empty_tags_body :: post_body where
  "empty_tags_body = valid_body\<lparr>b_tags := Some []\<rparr>"

text \<open>A draft, a published and an archived post.\<close>

definition three_posts :: store where
  "three_posts =
     [sample_post ''000000000000000000000001'' (user_id alice) ''News'' ''draft'' 1,
      sample_post ''000000000000000000000002'' (user_id alice) ''News'' ''published'' 2,
      sample_post ''000000000000000000000003'' (user_id alice) ''News'' ''archived'' 3]"

text \<open>A post of \<^const>\<open>alice\<close> with two comments, the first by \<^const>\<open>bob\<close>.\<close>

definition commented_post :: post where
  "commented_post = alice_post\<lparr>comments :=
     [\<lparr>c_id = ''c00000000000000000000001'', c_user = user_id bob, c_content = Some ''nice'',
       c_createdAt = 6\<rparr>,
      \<lparr>c_id = ''c00000000000000000000002'', c_user = user_id alice, c_content = Some ''thanks'',
       c_createdAt = 7\<rparr>]\<rparr>"

section \<open>Authorization of update and deletion; likes\<close>



lemma find_deleteOne:
  "find (\<lambda>q. post_id q = i) db = Some p \<Longrightarrow> \<exists>xs ys. db = xs @ p # ys \<and> deleteOne i db = xs @ ys"
proof (induction db)
  case Nil
  then show ?case by simp
next
  case (Cons q qs)
  show ?case
  proof (cases "post_id q = i")
    case True
    with Cons.prems have "q = p" by simp
    with True have "q # qs = [] @ p # qs \<and> deleteOne i (q # qs) = [] @ qs" by simp
    then show ?thesis by blast
  next
    case False
    with Cons obtain xs ys where "qs = xs @ p # ys" "deleteOne i qs = xs @ ys" by auto
    with False have "q # qs = (q # xs) @ p # ys \<and> deleteOne i (q # qs) = (q # xs) @ ys" by simp
    then show ?thesis by blast
  qed
qed

lemma findById_Some:
  "findById env db rid = Inr (Some p) \<Longrightarrow>
     \<exists>i. castObjectId env rid = Some i \<and> find (\<lambda>q. post_id q = i) db = Some p \<and> post_id p = i"
  by (auto simp: findById_def find_Some_iff split: option.splits)

text \<open>
  Claim C1. When the post exists and the requester is neither its author nor an admin, PUT
  and DELETE answer 403 and the store, hence the post with all its fields, comments and
  likes, is as before. When the requester is the author or an admin, the mutation goes
  ahead: PUT writes the updated post and answers 200 (or answers 400 and writes nothing when
  an update validator fails), DELETE answers 200 and removes exactly that post.
\<close>

theorem put_delete_authorization:
  assumes "findById env db rid = Inr (Some p)"
  shows "(author p \<noteq> user_id u \<and> role u \<noteq> ''admin'' \<longrightarrow>
            statusCode (fst (put_post env db u rid b)) = 403 \<and> snd (put_post env db u rid b) = db \<and>
            statusCode (fst (delete_post env db u rid)) = 403 \<and> snd (delete_post env db u rid) = db)
       \<and> (author p = user_id u \<or> role u = ''admin'' \<longrightarrow>
            (if validate_update b = []
             then put_post env db u rid b =
                    (json_ok 200 ''Post updated successfully'' (PostData (apply_update b p p)),
                     updateOne (post_id p) (apply_update b p p) db)
             else statusCode (fst (put_post env db u rid b)) = 400 \<and> snd (put_post env db u rid b) = db) \<and>
            statusCode (fst (delete_post env db u rid)) = 200 \<and>
            (\<exists>xs ys. db = xs @ p # ys \<and> snd (delete_post env db u rid) = xs @ ys))"
proof -
  from assms obtain i where i: "castObjectId env rid = Some i"
    "find (\<lambda>q. post_id q = i) db = Some p" "post_id p = i"
    using findById_Some by blast
  from find_deleteOne [OF i(2)] obtain xs ys where d: "db = xs @ p # ys" "deleteOne i db = xs @ ys"
    by blast
  have forbidden: "not_authorized (author p) u \<Longrightarrow>
      statusCode (fst (put_post env db u rid b)) = 403 \<and> snd (put_post env db u rid b) = db \<and>
      statusCode (fst (delete_post env db u rid)) = 403 \<and> snd (delete_post env db u rid) = db"
    using assms by (simp add: put_post_def delete_post_def try_catch_def json_fail_def)
  have put_ok: "\<not> not_authorized (author p) u \<Longrightarrow> validate_update b = [] \<Longrightarrow>
      put_post env db u rid b =
        (json_ok 200 ''Post updated successfully'' (PostData (apply_update b p p)),
         updateOne (post_id p) (apply_update b p p) db)"
    using assms i by (simp add: put_post_def try_catch_def findByIdAndUpdate_def)
  have put_bad: "\<not> not_authorized (author p) u \<Longrightarrow> validate_update b \<noteq> [] \<Longrightarrow>
      statusCode (fst (put_post env db u rid b)) = 400 \<and> snd (put_post env db u rid b) = db"
    using assms i by (simp add: put_post_def try_catch_def findByIdAndUpdate_def json_fail_def)
  have del_ok: "\<not> not_authorized (author p) u \<Longrightarrow>
      statusCode (fst (delete_post env db u rid)) = 200 \<and> snd (delete_post env db u rid) = xs @ ys"
    using assms i d by (simp add: delete_post_def try_catch_def findByIdAndDelete_def json_ok_def)
  show ?thesis
    using forbidden put_ok put_bad del_ok d(1) unfolding not_authorized_def by auto
qed




lemma find_updateOne:
  "find (\<lambda>q. post_id q = i) db = Some p \<Longrightarrow> post_id p' = i \<Longrightarrow>
     find (\<lambda>q. post_id q = i) (updateOne i p' db) = Some p'"
  by (induction db) (auto split: if_splits)

lemma findById_updateOne:
  assumes "findById env db rid = Inr (Some p)" and "post_id p' = post_id p"
  shows "findById env (updateOne (post_id p) p' db) rid = Inr (Some p')"
proof -
  from assms(1) obtain i where i: "castObjectId env rid = Some i"
    "find (\<lambda>q. post_id q = i) db = Some p" "post_id p = i"
    using findById_Some by blast
  with assms(2) show ?thesis by (simp add: findById_def find_updateOne)
qed

lemma findIndex_ge: "- 1 \<le> findIndex f xs"
  by (induction xs) auto

lemma findIndex_none: "findIndex f xs = - 1 \<longleftrightarrow> (\<forall>x \<in> set xs. \<not> f x)"
proof (induction xs)
  case Nil
  then show ?case by simp
next
  case (Cons x xs)
  have "- 1 \<le> findIndex f xs" by (rule findIndex_ge)
  with Cons show ?case by auto
qed

lemma findIndex_split:
  "\<exists>x \<in> set xs. f x \<Longrightarrow>
     \<exists>ys y zs. xs = ys @ y # zs \<and> f y \<and> (\<forall>x \<in> set ys. \<not> f x) \<and> findIndex f xs = int (length ys)"
proof (induction xs)
  case Nil
  then show ?case by simp
next
  case (Cons x xs)
  show ?case
  proof (cases "f x")
    case True
    then have "x # xs = [] @ x # xs \<and> f x \<and> (\<forall>x \<in> set []. \<not> f x) \<and> findIndex f (x # xs) = int (length ([] :: 'a list))"
      by simp
    then show ?thesis by blast
  next
    case False
    with Cons.prems have "\<exists>x \<in> set xs. f x" by simp
    from Cons.IH [OF this] obtain ys y zs where
      s: "xs = ys @ y # zs" "f y" "\<forall>x \<in> set ys. \<not> f x" "findIndex f xs = int (length ys)"
      by blast
    with False have "x # xs = (x # ys) @ y # zs \<and> f y \<and> (\<forall>a \<in> set (x # ys). \<not> f a) \<and>
        findIndex f (x # xs) = int (length (x # ys))"
      by simp
    then show ?thesis by blast
  qed
qed

lemma findIndex_snoc:
  "\<forall>x \<in> set xs. \<not> f x \<Longrightarrow> f y \<Longrightarrow> findIndex f (xs @ [y]) = int (length xs)"
  by (induction xs) auto

lemma splice1_middle: "splice1 (length ys) (ys @ y # zs) = ys @ zs"
  by (simp add: splice1_def)

lemma toggled_likes_absent:
  "\<forall>l \<in> set ls. l_user l \<noteq> user_id u \<Longrightarrow> toggled_likes u ls = ls @ [\<lparr>l_user = user_id u\<rparr>]"
  using findIndex_none [of "\<lambda>l. l_user l = user_id u" ls] by (simp add: toggled_likes_def)

lemma toggled_likes_present:
  assumes "\<exists>l \<in> set ls. l_user l = user_id u"
  shows "\<exists>xs ys. ls = xs @ \<lparr>l_user = user_id u\<rparr> # ys \<and> (\<forall>l \<in> set xs. l_user l \<noteq> user_id u) \<and>
           toggled_likes u ls = xs @ ys"
proof -
  from findIndex_split [of ls "\<lambda>l. l_user l = user_id u"] assms obtain xs y ys where
    s: "ls = xs @ y # ys" "l_user y = user_id u" "\<forall>l \<in> set xs. l_user l \<noteq> user_id u"
       "findIndex (\<lambda>l. l_user l = user_id u) ls = int (length xs)"
    by blast
  from s(2) have y: "y = \<lparr>l_user = user_id u\<rparr>" by (cases y) simp
  from s(4) have "toggled_likes u ls = splice1 (length xs) ls"
    by (simp add: toggled_likes_def)
  with s(1) have "toggled_likes u ls = xs @ ys" by (simp add: splice1_middle)
  with s(1,3) y show ?thesis by blast
qed

lemma toggled_likes_distinct:
  "distinct (map l_user ls) \<Longrightarrow> distinct (map l_user (toggled_likes u ls))"
proof (cases "\<exists>l \<in> set ls. l_user l = user_id u")
  case True
  assume d: "distinct (map l_user ls)"
  from toggled_likes_present [OF True] obtain xs ys where
    "ls = xs @ \<lparr>l_user = user_id u\<rparr> # ys" "toggled_likes u ls = xs @ ys" by blast
  with d show ?thesis by auto
next
  case False
  assume d: "distinct (map l_user ls)"
  from False have "toggled_likes u ls = ls @ [\<lparr>l_user = user_id u\<rparr>]"
    by (simp add: toggled_likes_absent)
  with d False show ?thesis by auto
qed

lemma toggled_twice:
  assumes "distinct (map l_user ls)"
  shows "set (toggled_likes u (toggled_likes u ls)) = set ls \<and>
         length (toggled_likes u (toggled_likes u ls)) = length ls \<and>
         ((\<exists>l \<in> set (toggled_likes u ls). l_user l = user_id u) \<longleftrightarrow> \<not> (\<exists>l \<in> set ls. l_user l = user_id u))"
proof (cases "\<exists>l \<in> set ls. l_user l = user_id u")
  case True
  from toggled_likes_present [OF True] obtain xs ys where
    s: "ls = xs @ \<lparr>l_user = user_id u\<rparr> # ys" "toggled_likes u ls = xs @ ys" by blast
  with assms have "user_id u \<notin> l_user ` set (xs @ ys)" by (simp add: image_Un)
  then have absent: "\<forall>l \<in> set (xs @ ys). l_user l \<noteq> user_id u" by (metis imageI)
  then have "toggled_likes u (xs @ ys) = (xs @ ys) @ [\<lparr>l_user = user_id u\<rparr>]"
    by (rule toggled_likes_absent)
  with s absent True show ?thesis by auto
next
  case False
  then have t: "toggled_likes u ls = ls @ [\<lparr>l_user = user_id u\<rparr>]"
    by (simp add: toggled_likes_absent)
  from False have "findIndex (\<lambda>l. l_user l = user_id u) (ls @ [\<lparr>l_user = user_id u\<rparr>]) = int (length ls)"
    by (intro findIndex_snoc) auto
  then have "toggled_likes u (ls @ [\<lparr>l_user = user_id u\<rparr>]) = ls"
    by (simp add: toggled_likes_def splice1_def)
  with t False show ?thesis by auto
qed

lemma like_post_found:
  assumes "findById env db rid = Inr (Some p)"
  shows "like_post env db u rid =
     (json_ok 200 (if findIndex (\<lambda>l. l_user l = user_id u) (likes p) > - 1
                    then ''Post unliked'' else ''Post liked'')
        (LikeData (length (toggled_likes u (likes p))) (\<not> (\<exists>l \<in> set (likes p). l_user l = user_id u))),
      updateOne (post_id p) (p\<lparr>likes := toggled_likes u (likes p)\<rparr>) db)"
  using assms findIndex_none [of "\<lambda>l. l_user l = user_id u" "likes p"]
  by (simp add: like_post_def try_catch_def)

text \<open>
  Claim C2. A like request on an existing post removes the requester's entry when there is
  one and appends one otherwise; the response carries the number of likes after the toggle
  and \<^verbatim>\<open>isLiked\<close> is true exactly when the entry was added. When the likes hold at most one
  entry per user (the invariant of the data model, which \<^const>\<open>toggled_likes\<close> keeps), a
  second toggle by the same user restores the set of likes, and reports the original count
  and the original liked state.
\<close>

theorem like_toggle:
  assumes "findById env db rid = Inr (Some p)"
  shows "\<exists>p1. findById env (snd (like_post env db u rid)) rid = Inr (Some p1) \<and>
           statusCode (fst (like_post env db u rid)) = 200 \<and>
           ((\<exists>l \<in> set (likes p). l_user l = user_id u) \<longrightarrow>
              (\<exists>xs ys. likes p = xs @ \<lparr>l_user = user_id u\<rparr> # ys \<and> likes p1 = xs @ ys)) \<and>
           (\<not> (\<exists>l \<in> set (likes p). l_user l = user_id u) \<longrightarrow>
              likes p1 = likes p @ [\<lparr>l_user = user_id u\<rparr>]) \<and>
           data (fst (like_post env db u rid)) =
             LikeData (length (likes p1)) (\<not> (\<exists>l \<in> set (likes p). l_user l = user_id u)) \<and>
           (distinct (map l_user (likes p)) \<longrightarrow>
              (\<exists>p2. findById env (snd (like_post env (snd (like_post env db u rid)) u rid)) rid = Inr (Some p2) \<and>
                 set (likes p2) = set (likes p) \<and>
                 data (fst (like_post env (snd (like_post env db u rid)) u rid)) =
                   LikeData (length (likes p)) (\<exists>l \<in> set (likes p). l_user l = user_id u)))"
proof -
  let ?p1 = "p\<lparr>likes := toggled_likes u (likes p)\<rparr>"
  let ?db1 = "updateOne (post_id p) ?p1 db"
  let ?p2 = "?p1\<lparr>likes := toggled_likes u (likes ?p1)\<rparr>"
  have r1: "like_post env db u rid =
     (json_ok 200 (if findIndex (\<lambda>l. l_user l = user_id u) (likes p) > - 1
                    then ''Post unliked'' else ''Post liked'')
        (LikeData (length (toggled_likes u (likes p))) (\<not> (\<exists>l \<in> set (likes p). l_user l = user_id u))),
      ?db1)"
    using assms by (rule like_post_found)
  have f1: "findById env ?db1 rid = Inr (Some ?p1)"
    using assms by (rule findById_updateOne) simp
  have r2: "like_post env ?db1 u rid =
     (json_ok 200 (if findIndex (\<lambda>l. l_user l = user_id u) (likes ?p1) > - 1
                    then ''Post unliked'' else ''Post liked'')
        (LikeData (length (toggled_likes u (likes ?p1))) (\<not> (\<exists>l \<in> set (likes ?p1). l_user l = user_id u))),
      updateOne (post_id ?p1) ?p2 ?db1)"
    using f1 by (rule like_post_found)
  have f2: "findById env (updateOne (post_id ?p1) ?p2 ?db1) rid = Inr (Some ?p2)"
    using f1 by (rule findById_updateOne) simp
  have removed: "\<exists>l \<in> set (likes p). l_user l = user_id u \<Longrightarrow>
      \<exists>xs ys. likes p = xs @ \<lparr>l_user = user_id u\<rparr> # ys \<and> likes ?p1 = xs @ ys"
    using toggled_likes_present [of "likes p" u] by auto
  have added: "\<not> (\<exists>l \<in> set (likes p). l_user l = user_id u) \<Longrightarrow>
      likes ?p1 = likes p @ [\<lparr>l_user = user_id u\<rparr>]"
    using toggled_likes_absent [of "likes p" u] by simp
  have twice: "distinct (map l_user (likes p)) \<Longrightarrow>
      set (likes ?p2) = set (likes p) \<and>
      data (fst (like_post env ?db1 u rid)) =
        LikeData (length (likes p)) (\<exists>l \<in> set (likes p). l_user l = user_id u)"
    using toggled_twice [of "likes p" u] by (simp add: r2 json_ok_def)
  have "statusCode (fst (like_post env db u rid)) = 200 \<and>
        data (fst (like_post env db u rid)) =
          LikeData (length (likes ?p1)) (\<not> (\<exists>l \<in> set (likes p). l_user l = user_id u))"
    by (simp add: r1 json_ok_def)
  with f1 f2 removed added twice show ?thesis
    unfolding r1 snd_conv r2 by blast
qed


lemma alice_post_found: "findById test_env [alice_post] oid_a = Inr (Some alice_post)"
  by (simp add: findById_def test_env_def hex24_def oid_a_def alice_post_def sample_post_def)

theorem put_delete_authorization_witness:
  "statusCode (fst (put_post test_env [alice_post] bob oid_a valid_body)) = 403 \<and>
   snd (put_post test_env [alice_post] bob oid_a valid_body) = [alice_post] \<and>
   statusCode (fst (delete_post test_env [alice_post] bob oid_a)) = 403 \<and>
   snd (delete_post test_env [alice_post] bob oid_a) = [alice_post] \<and>
   statusCode (fst (put_post test_env [alice_post] alice oid_a valid_body)) = 200 \<and>
   statusCode (fst (delete_post test_env [alice_post] carol oid_a)) = 200 \<and>
   (\<exists>xs ys. [alice_post] = xs @ alice_post # ys \<and>
      snd (delete_post test_env [alice_post] carol oid_a) = xs @ ys)"
proof -
  have b: "author alice_post \<noteq> user_id bob \<and> role bob \<noteq> ''admin''"
    by (simp add: alice_post_def sample_post_def alice_def bob_def)
  have a: "author alice_post = user_id alice \<or> role alice = ''admin''"
    by (simp add: alice_post_def sample_post_def)
  have c: "author alice_post = user_id carol \<or> role carol = ''admin''"
    by (simp add: carol_def)
  have v: "validate_update valid_body = []"
    by (simp add: validate_update_def validate_provided_def validate_length_def valid_body_def)
  show ?thesis
    using put_delete_authorization [OF alice_post_found, of bob valid_body]
      put_delete_authorization [OF alice_post_found, of alice valid_body]
      put_delete_authorization [OF alice_post_found, of carol valid_body] a b c v
    by (simp add: json_ok_def)
qed

lemma alice_post_likes: "likes alice_post = []"
  by (simp add: alice_post_def sample_post_def)

lemma liked_post_found: "findById test_env [liked_post] oid_a = Inr (Some liked_post)"
  by (simp add: findById_def test_env_def hex24_def oid_a_def liked_post_def alice_post_def
      sample_post_def)

theorem like_toggle_witness:
  "(\<exists>p1. findById test_env (snd (like_post test_env [liked_post] bob oid_a)) oid_a = Inr (Some p1) \<and>
      likes p1 = [] \<and>
      data (fst (like_post test_env [liked_post] bob oid_a)) = LikeData 0 False) \<and>
   (\<exists>p1. findById test_env (snd (like_post test_env [alice_post] bob oid_a)) oid_a = Inr (Some p1) \<and>
      likes p1 = [\<lparr>l_user = user_id bob\<rparr>] \<and>
      data (fst (like_post test_env [alice_post] bob oid_a)) = LikeData 1 True \<and>
      (\<exists>p2. findById test_env
               (snd (like_post test_env (snd (like_post test_env [alice_post] bob oid_a)) bob oid_a))
               oid_a = Inr (Some p2) \<and>
         set (likes p2) = {} \<and>
         data (fst (like_post test_env (snd (like_post test_env [alice_post] bob oid_a)) bob oid_a)) =
           LikeData 0 False))"
  using like_toggle [OF alice_post_found, of bob] like_toggle [OF liked_post_found, of bob]
  by (auto simp: alice_post_likes liked_post_def Cons_eq_append_conv)

section \<open>Listing: pagination\<close>

declare decimal.simps [simp del]

lemma digit_value_decimal: "d < 10 \<Longrightarrow> digit_value 10 (char_of (48 + d)) = Some d"
  by (simp add: digit_value_def Let_def)

lemma digit_value_range:
  "digit_value 10 c = Some d \<Longrightarrow> 48 \<le> (of_char c :: nat) \<and> (of_char c :: nat) \<le> 57"
  by (auto simp: digit_value_def Let_def split: if_splits)

lemma decimal_digits: "c \<in> set (decimal n) \<Longrightarrow> \<exists>d. digit_value 10 c = Some d"
proof (induction n rule: decimal.induct)
  case (1 n)
  show ?case
  proof (cases "n < 10")
    case True
    with "1.prems" show ?thesis
      by (simp add: decimal.simps [of n] digit_value_decimal)
  next
    case False
    with "1.prems" have "c \<in> set (decimal (n div 10)) \<or> c = char_of (48 + n mod 10)"
      by (auto simp: decimal.simps [of n])
    with "1.IH" False show ?thesis
      by (auto simp: digit_value_decimal)
  qed
qed

lemma leading_digits_all:
  "\<forall>c \<in> set xs. \<exists>d. digit_value r c = Some d \<Longrightarrow>
     leading_digits r (xs @ ys) = map (\<lambda>c. the (digit_value r c)) xs @ leading_digits r ys"
  by (induction xs) auto

lemma decimal_value:
  "foldl (\<lambda>a d. a * 10 + d) 0 (map (\<lambda>c. the (digit_value 10 c)) (decimal n)) = n"
proof (induction n rule: decimal.induct)
  case (1 n)
  show ?case
  proof (cases "n < 10")
    case True
    then show ?thesis by (simp add: decimal.simps [of n] digit_value_decimal)
  next
    case False
    with "1.IH" show ?thesis
      by (simp add: decimal.simps [of n] digit_value_decimal)
  qed
qed

lemma decimal_nonempty: "decimal n \<noteq> []"
  by (simp add: decimal.simps [of n])

lemma parse_unsigned_decimal: "parse_unsigned (decimal n) = Some (int n)"
proof -
  have digits: "\<forall>c \<in> set (decimal n). \<exists>d. digit_value 10 c = Some d"
    using decimal_digits by blast
  have "CHR ''x'' \<notin> set (decimal n)" "CHR ''X'' \<notin> set (decimal n)"
    using digits digit_value_range by fastforce+
  then have "take 2 (decimal n) \<noteq> ''0x''" "take 2 (decimal n) \<noteq> ''0X''"
    by (metis in_set_takeD list.set_intros(1,2))+
  moreover have "leading_digits 10 (decimal n) = map (\<lambda>c. the (digit_value 10 c)) (decimal n)"
    using leading_digits_all [OF digits, of "[]"] by simp
  ultimately show ?thesis
    by (simp add: parse_unsigned_def digits_value_def decimal_nonempty decimal_value)
qed

lemma parse_integer_decimal: "parse_integer (Some (decimal n)) = Some (int n)"
proof -
  obtain c cs where s: "decimal n = c # cs"
    using decimal_nonempty by (cases "decimal n") auto
  then obtain d where "digit_value 10 c = Some d"
    using decimal_digits [of c n] by auto
  then have r: "48 \<le> (of_char c :: nat) \<and> (of_char c :: nat) \<le> 57"
    by (rule digit_value_range)
  then have "\<not> is_white_space c" "c \<noteq> CHR ''-''" "c \<noteq> CHR ''+''"
    by (auto simp: is_white_space_def)
  with s parse_unsigned_decimal [of n] show ?thesis
    by (simp add: parse_integer_def)
qed

declare bit_length.simps [simp del]

lemma bit_length_0: "bit_length 0 = 0"
  by (simp add: bit_length.simps [of 0])

lemma bit_length_Suc: "n \<noteq> 0 \<Longrightarrow> bit_length n = Suc (bit_length (n div 2))"
  by (simp add: bit_length.simps [of n])

lemma bit_length_le: "n < 2 ^ k \<Longrightarrow> bit_length n \<le> k"
proof (induction k arbitrary: n)
  case 0
  then show ?case by (simp add: bit_length_0)
next
  case (Suc k)
  show ?case
  proof (cases "n = 0")
    case True
    then show ?thesis by (simp add: bit_length_0)
  next
    case False
    from Suc.prems have "n div 2 < 2 ^ k" by simp
    then have "bit_length (n div 2) \<le> k" by (rule Suc.IH)
    with False show ?thesis by (simp add: bit_length_Suc)
  qed
qed

lemma bit_length_lower: "n \<noteq> 0 \<Longrightarrow> 2 ^ (bit_length n - 1) \<le> n"
proof (induction n rule: bit_length.induct)
  case (1 n)
  show ?case
  proof (cases "n div 2 = 0")
    case True
    with "1.prems" have "n = 1" by (simp add: div_eq_0_iff)
    then show ?thesis by (simp add: bit_length_Suc bit_length_0)
  next
    case False
    with "1.IH" "1.prems" have h: "2 ^ (bit_length (n div 2) - 1) \<le> n div 2" by simp
    from False have "bit_length (n div 2) \<noteq> 0" by (simp add: bit_length_Suc)
    then have "(2::nat) ^ bit_length (n div 2) = 2 * 2 ^ (bit_length (n div 2) - 1)"
      by (cases "bit_length (n div 2)") simp_all
    with h have "2 ^ bit_length (n div 2) \<le> 2 * (n div 2)" by simp
    also have "\<dots> \<le> n" by simp
    finally show ?thesis using "1.prems" by (simp add: bit_length_Suc)
  qed
qed

lemma bit_length_upper: "n < 2 ^ bit_length n"
proof (induction n rule: bit_length.induct)
  case (1 n)
  show ?case
  proof (cases "n = 0")
    case True
    then show ?thesis by simp
  next
    case False
    with "1.IH" have "n div 2 < 2 ^ bit_length (n div 2)" by simp
    then have "n < 2 * 2 ^ bit_length (n div 2)" by simp
    with False show ?thesis by (simp add: bit_length_Suc)
  qed
qed

lemma bit_length_eq: "2 ^ k \<le> n \<Longrightarrow> n < 2 ^ Suc k \<Longrightarrow> bit_length n = Suc k"
proof -
  assume lo: "2 ^ k \<le> n" and hi: "n < 2 ^ Suc k"
  from hi have "bit_length n \<le> Suc k" by (rule bit_length_le)
  moreover have "\<not> bit_length n \<le> k"
  proof
    assume "bit_length n \<le> k"
    then have "(2::nat) ^ bit_length n \<le> 2 ^ k" by (rule power_increasing) simp
    with bit_length_upper [of n] lo show False by simp
  qed
  ultimately show ?thesis by simp
qed

lemma bit_length_54: "bit_length 9007199254740992 = 54" "bit_length 9007199254740993 = 54"
  using bit_length_eq [of 53 9007199254740992] bit_length_eq [of 53 9007199254740993]
  by simp_all

lemma round_to_double_2_53: "round_to_double 9007199254740992 = 9007199254740992"
  by (simp add: round_to_double_def bit_length_54 Let_def)

lemma round_to_double_2_53_1: "round_to_double 9007199254740993 = 9007199254740992"
  by (simp add: round_to_double_def bit_length_54 Let_def)

lemma round_to_double_exact: "n \<le> 2 ^ 53 \<Longrightarrow> round_to_double n = n"
proof (cases "n < 2 ^ 53")
  case True
  then have "bit_length n \<le> 53" by (rule bit_length_le)
  then show ?thesis by (simp add: round_to_double_def)
next
  case False
  assume "n \<le> 2 ^ 53"
  with False have "n = 9007199254740992" by simp
  then show ?thesis by (simp add: round_to_double_2_53)
qed

lemma round_to_double_pos: "0 < n \<Longrightarrow> 0 < round_to_double n"
proof (cases "bit_length n \<le> 53")
  case True
  assume "0 < n"
  with True show ?thesis by (simp add: round_to_double_def)
next
  case False
  assume "0 < n"
  then have "n \<noteq> 0" by simp
  then have "2 ^ (bit_length n - 1) \<le> n" by (rule bit_length_lower)
  moreover have "(2::nat) ^ (bit_length n - 53) \<le> 2 ^ (bit_length n - 1)"
    by (rule power_increasing) simp_all
  ultimately have "2 ^ (bit_length n - 53) \<le> n" by (rule order_trans [rotated])
  then have "0 < n div 2 ^ (bit_length n - 53)"
    by (simp add: div_greater_zero_iff)
  with False show ?thesis by (simp add: round_to_double_def Let_def)
qed

lemma to_Number_exact: "n \<le> 2 ^ 53 \<Longrightarrow> to_Number (int n) = Whole (int n)"
proof -
  assume n: "n \<le> 2 ^ 53"
  have "(2::nat) ^ 53 < 2 ^ 1024" by (rule power_strict_increasing) simp_all
  with n have "\<not> 2 ^ 1024 \<le> n" by simp
  with n show ?thesis by (simp add: to_Number_def round_to_double_exact)
qed

lemma to_Number_pos: "0 < n \<Longrightarrow> to_Number (int n) \<noteq> NaN \<and> to_Number (int n) \<noteq> Whole 0"
  using round_to_double_pos [of n] by (simp add: to_Number_def)

lemma parseInt_decimal: "parseInt (Some (decimal n)) = to_Number (int n)"
  by (simp add: parseInt_def parse_integer_decimal)

lemma parseInt_None: "parseInt None = NaN"
  by (simp add: parseInt_def parse_integer_def)

lemma parse_integer_2_5: "parse_integer (Some ''2'') = Some 2" "parse_integer (Some ''5'') = Some 5"
  by (simp_all add: parse_integer_def parse_unsigned_def digits_value_def digit_value_def
      is_white_space_def)

lemma parseInt_2_5: "parseInt (Some ''2'') = Whole 2" "parseInt (Some ''5'') = Whole 5"
  using to_Number_exact [of 2] to_Number_exact [of 5]
  by (simp_all add: parseInt_def parse_integer_2_5)

lemma or_default_nonzero: "or_default v (Whole 10) \<noteq> Whole 0" "or_default v (Whole 10) \<noteq> NaN"
  by (simp_all add: or_default_def)

lemma int64_Some: "int64 v = Some i \<Longrightarrow> v = Whole i \<and> \<bar>i\<bar> < 2 ^ 63"
  by (cases v) (simp_all add: int64_def split: if_splits)

lemma list_posts_unfold:
  "list_posts env db q =
     try_catch 500 db
       (case build_query env q of
          Inl e \<Rightarrow> Inl e
        | Inr mq \<Rightarrow>
            (case Post_find env db mq
                    (num_times (num_minus_one (or_default (parseInt (q_page q)) (Whole 1)))
                       (or_default (parseInt (q_limit q)) (Whole 10)))
                    (or_default (parseInt (q_limit q)) (Whole 10)) of
               Inl e \<Rightarrow> Inl e
             | Inr posts \<Rightarrow>
                 (case countDocuments env db mq of
                    Inl e \<Rightarrow> Inl e
                  | Inr n \<Rightarrow>
                      Inr (json_ok 200 []
                             (PostsData posts
                                \<lparr>current = or_default (parseInt (q_page q)) (Whole 1),
                                 pages = page_count n (or_default (parseInt (q_limit q)) (Whole 10)),
                                 total = n\<rparr>),
                           db))))"
  by (simp add: list_posts_def Let_def)

lemma list_posts_error:
  "build_query env q = Inl e \<Longrightarrow> list_posts env db q = (json_fail 500 (error_message e), db)"
  "build_query env q = Inr mq \<Longrightarrow>
     Post_find env db mq
       (num_times (num_minus_one (or_default (parseInt (q_page q)) (Whole 1)))
          (or_default (parseInt (q_limit q)) (Whole 10)))
       (or_default (parseInt (q_limit q)) (Whole 10)) = Inl e \<Longrightarrow>
     list_posts env db q = (json_fail 500 (error_message e), db)"
  by (simp_all add: list_posts_unfold try_catch_def)

lemma list_posts_found:
  "build_query env q = Inr mq \<Longrightarrow>
     Post_find env db mq
       (num_times (num_minus_one (or_default (parseInt (q_page q)) (Whole 1)))
          (or_default (parseInt (q_limit q)) (Whole 10)))
       (or_default (parseInt (q_limit q)) (Whole 10)) = Inr posts \<Longrightarrow>
     cast_author env mq = Inr a \<Longrightarrow>
     list_posts env db q =
       (json_ok 200 []
          (PostsData posts
             \<lparr>current = or_default (parseInt (q_page q)) (Whole 1),
              pages = page_count (length (filter (matches mq a) db))
                        (or_default (parseInt (q_limit q)) (Whole 10)),
              total = length (filter (matches mq a) db)\<rparr>),
        db)"
  by (simp add: list_posts_unfold try_catch_def countDocuments_def)

lemma Post_find_cases:
  "(\<exists>e. Post_find env db mq skip limit = Inl e) \<or>
   (\<exists>a sk l. cast_author env mq = Inr a \<and> skip = Whole sk \<and> 0 \<le> sk \<and> limit = Whole l \<and>
      Post_find env db mq skip limit =
        Inr (if l = 0
             then drop (nat sk) (sort_key (\<lambda>p. - createdAt p) (filter (matches mq a) db))
             else take (nat \<bar>l\<bar>)
                    (drop (nat sk) (sort_key (\<lambda>p. - createdAt p) (filter (matches mq a) db)))))"
proof (cases "cast_author env mq")
  case (Inl e)
  then show ?thesis by (simp add: Post_find_def)
next
  case (Inr a)
  show ?thesis
  proof (cases "int64 skip")
    case None
    with Inr show ?thesis by (simp add: Post_find_def)
  next
    case (Some sk)
    note sk = this
    show ?thesis
    proof (cases "int64 limit")
      case None
      with Inr sk show ?thesis by (simp add: Post_find_def)
    next
      case (Some l)
      show ?thesis
      proof (cases "sk < 0")
        case True
        with Inr sk Some show ?thesis by (simp add: Post_find_def)
      next
        case False
        from sk have "skip = Whole sk" by (simp add: int64_Some)
        moreover from Some have "limit = Whole l" by (simp add: int64_Some)
        moreover from False have "0 \<le> sk" by simp
        moreover from Inr sk Some False have "Post_find env db mq skip limit =
          Inr (if l = 0
               then drop (nat sk) (sort_key (\<lambda>p. - createdAt p) (filter (matches mq a) db))
               else take (nat \<bar>l\<bar>)
                      (drop (nat sk) (sort_key (\<lambda>p. - createdAt p) (filter (matches mq a) db))))"
          by (simp add: Post_find_def)
        ultimately show ?thesis using Inr by blast
      qed
    qed
  qed
qed

lemma page_count_div: "l \<noteq> 0 \<Longrightarrow> page_count n (Whole l) = Whole (- ((- int n) div l))"
proof -
  assume "l \<noteq> 0"
  moreover have "\<lceil>real_of_int (int n) / real_of_int l\<rceil> = - ((- int n) div l)"
    by (rule ceiling_divide_eq_div)
  ultimately show ?thesis by (simp add: page_count_def)
qed

lemma num_skip_2_5: "num_times (num_minus_one (Whole 2)) (Whole 5) = Whole 5"
  using to_Number_exact [of 1] to_Number_exact [of 5] by simp

text \<open>
  Claim C3, as amended. The list route answers 200 or, when a call throws, 500. On a 200
  response the pagination has \<^verbatim>\<open>total\<close> the number of matching posts, \<^verbatim>\<open>pages\<close> the
  ceiling of total over limit and \<^verbatim>\<open>current\<close> the requested page as the language reads
  it: 1 when no page is given, \<open>n\<close> when the parameter is the decimal numeral of a
  positive \<open>n\<close> up to \<open>2 ^ 53\<close>, and the double nearest to \<open>n\<close> beyond. With no matching
  post the sequence is empty and \<^verbatim>\<open>pages\<close> is 0; page 2 with limit 5 over 12 matching
  posts gives 5 posts and 3 pages.
\<close>

theorem list_pagination:
  "(statusCode (fst (list_posts env db q)) = 200 \<or> statusCode (fst (list_posts env db q)) = 500) \<and>
   snd (list_posts env db q) = db \<and>
   (statusCode (fst (list_posts env db q)) = 200 \<longrightarrow>
      (\<exists>mq a posts pg l.
         build_query env q = Inr mq \<and> cast_author env mq = Inr a \<and>
         data (fst (list_posts env db q)) = PostsData posts pg \<and>
         total pg = length (filter (matches mq a) db) \<and>
         or_default (parseInt (q_limit q)) (Whole 10) = Whole l \<and> l \<noteq> 0 \<and>
         pages pg = Whole \<lceil>real (total pg) / real_of_int l\<rceil> \<and>
         pages pg = Whole (- ((- int (total pg)) div l)) \<and>
         current pg = or_default (parseInt (q_page q)) (Whole 1) \<and>
         (q_page q = None \<longrightarrow> current pg = Whole 1) \<and>
         (\<forall>n. 0 < n \<and> n \<le> 2 ^ 53 \<and> q_page q = Some (decimal n) \<longrightarrow> current pg = Whole (int n)) \<and>
         (\<forall>n. 0 < n \<and> q_page q = Some (decimal n) \<longrightarrow> current pg = to_Number (int n)) \<and>
         (total pg = 0 \<longrightarrow> posts = [] \<and> pages pg = Whole 0) \<and>
         (q_page q = Some ''2'' \<and> q_limit q = Some ''5'' \<and> total pg = 12 \<longrightarrow>
            length posts = 5 \<and> pages pg = Whole 3)))"
proof (cases "build_query env q")
  case (Inl e)
  then show ?thesis by (simp add: list_posts_error(1) json_fail_def)
next
  case (Inr mq)
  note mq = this
  define page where "page = or_default (parseInt (q_page q)) (Whole 1)"
  define limit where "limit = or_default (parseInt (q_limit q)) (Whole 10)"
  define skip where "skip = num_times (num_minus_one page) limit"
  from Post_find_cases [of env db mq skip limit]
  consider (err) e where "Post_find env db mq skip limit = Inl e"
    | (ok) a sk l where "cast_author env mq = Inr a" "skip = Whole sk" "0 \<le> sk" "limit = Whole l"
        "Post_find env db mq skip limit =
          Inr (if l = 0
               then drop (nat sk) (sort_key (\<lambda>p. - createdAt p) (filter (matches mq a) db))
               else take (nat \<bar>l\<bar>)
                      (drop (nat sk) (sort_key (\<lambda>p. - createdAt p) (filter (matches mq a) db))))"
    by blast
  then show ?thesis
  proof cases
    case err
    then have "list_posts env db q = (json_fail 500 (error_message e), db)"
      unfolding skip_def page_def limit_def by (rule list_posts_error(2) [OF mq])
    then show ?thesis by (simp add: json_fail_def)
  next
    case ok
    define matching where "matching = filter (matches mq a) db"
    define posts where "posts =
      take (nat \<bar>l\<bar>) (drop (nat sk) (sort_key (\<lambda>p. - createdAt p) matching))"
    define pg where "pg = \<lparr>current = page, pages = page_count (length matching) limit,
                total = length matching\<rparr>"
    have l0: "l \<noteq> 0"
      using ok(4) or_default_nonzero(1) [of "parseInt (q_limit q)"] by (auto simp: limit_def)
    with ok(5) have pf: "Post_find env db mq skip limit = Inr posts"
      by (simp add: posts_def matching_def)
    have r: "list_posts env db q = (json_ok 200 [] (PostsData posts pg), db)"
      using list_posts_found [OF mq pf [unfolded skip_def page_def limit_def] ok(1)]
      by (simp add: pg_def page_def limit_def matching_def)
    have pg: "total pg = length matching" "pages pg = page_count (length matching) (Whole l)"
      "current pg = page"
      by (simp_all add: pg_def ok(4))
    have lim: "or_default (parseInt (q_limit q)) (Whole 10) = Whole l"
      using ok(4) by (simp add: limit_def)
    have c0: "current pg = or_default (parseInt (q_page q)) (Whole 1)"
      by (simp add: pg page_def)
    have c1: "q_page q = None \<longrightarrow> current pg = Whole 1"
      by (simp add: pg page_def parseInt_None or_default_def)
    have c3: "\<forall>n. 0 < n \<and> q_page q = Some (decimal n) \<longrightarrow> current pg = to_Number (int n)"
      using to_Number_pos by (simp add: pg page_def parseInt_decimal or_default_def)
    have c2: "\<forall>n. 0 < n \<and> n \<le> 2 ^ 53 \<and> q_page q = Some (decimal n) \<longrightarrow> current pg = Whole (int n)"
      using c3 to_Number_exact by auto
    have p1: "pages pg = Whole \<lceil>real (total pg) / real_of_int l\<rceil>"
      using l0 by (simp add: pg page_count_def)
    have p2: "pages pg = Whole (- ((- int (total pg)) div l))"
      using l0 by (simp add: pg page_count_div)
    have e: "total pg = 0 \<longrightarrow> posts = [] \<and> pages pg = Whole 0"
      using l0 by (simp add: pg posts_def page_count_def)
    have t1: "q_page q = Some ''2'' \<and> q_limit q = Some ''5'' \<and> total pg = 12 \<longrightarrow>
        length posts = 5 \<and> pages pg = Whole 3"
    proof
      assume a: "q_page q = Some ''2'' \<and> q_limit q = Some ''5'' \<and> total pg = 12"
      then have pl: "page = Whole 2" "limit = Whole 5"
        by (simp_all add: page_def limit_def parseInt_2_5 or_default_def)
      have "skip = Whole 5" unfolding skip_def pl by (rule num_skip_2_5)
      with pl ok(2,4) have "l = 5" "sk = 5" by simp_all
      with a show "length posts = 5 \<and> pages pg = Whole 3"
        by (simp add: pg posts_def page_count_def)
    qed
    have d: "data (fst (list_posts env db q)) = PostsData posts pg"
      by (simp add: r json_ok_def)
    have s: "statusCode (fst (list_posts env db q)) = 200" "snd (list_posts env db q) = db"
      by (simp_all add: r json_ok_def)
    have "\<exists>mq a posts pg l.
         build_query env q = Inr mq \<and> cast_author env mq = Inr a \<and>
         data (fst (list_posts env db q)) = PostsData posts pg \<and>
         total pg = length (filter (matches mq a) db) \<and>
         or_default (parseInt (q_limit q)) (Whole 10) = Whole l \<and> l \<noteq> 0 \<and>
         pages pg = Whole \<lceil>real (total pg) / real_of_int l\<rceil> \<and>
         pages pg = Whole (- ((- int (total pg)) div l)) \<and>
         current pg = or_default (parseInt (q_page q)) (Whole 1) \<and>
         (q_page q = None \<longrightarrow> current pg = Whole 1) \<and>
         (\<forall>n. 0 < n \<and> n \<le> 2 ^ 53 \<and> q_page q = Some (decimal n) \<longrightarrow> current pg = Whole (int n)) \<and>
         (\<forall>n. 0 < n \<and> q_page q = Some (decimal n) \<longrightarrow> current pg = to_Number (int n)) \<and>
         (total pg = 0 \<longrightarrow> posts = [] \<and> pages pg = Whole 0) \<and>
         (q_page q = Some ''2'' \<and> q_limit q = Some ''5'' \<and> total pg = 12 \<longrightarrow>
            length posts = 5 \<and> pages pg = Whole 3)"
      apply (rule exI [of _ mq])
      apply (rule exI [of _ a])
      apply (rule exI [of _ posts])
      apply (rule exI [of _ pg])
      apply (rule exI [of _ l])
      apply (intro conjI)
      apply (rule mq)
      apply (rule ok(1))
      apply (rule d)
      apply (simp add: pg matching_def)
      apply (rule lim)
      apply (rule l0)
      apply (rule p1)
      apply (rule p2)
      apply (rule c0)
      apply (rule c1)
      apply (rule c2)
      apply (rule c3)
      apply (rule e)
      apply (rule t1)
      done
    with s show ?thesis by blast
  qed
qed

lemma Post_find_whole:
  "cast_author env mq = Inr a \<Longrightarrow> 0 \<le> sk \<Longrightarrow> sk < 2 ^ 63 \<Longrightarrow> \<bar>l\<bar> < 2 ^ 63 \<Longrightarrow> l \<noteq> 0 \<Longrightarrow>
     Post_find env db mq (Whole sk) (Whole l) =
       Inr (take (nat \<bar>l\<bar>)
              (drop (nat sk) (sort_key (\<lambda>p. - createdAt p) (filter (matches mq a) db))))"
  by (simp add: Post_find_def int64_def)

lemma num_skip_default: "num_times (num_minus_one (Whole 1)) (Whole 10) = Whole 0"
  using to_Number_exact [of 0] by simp

lemma build_query_page2:
  "build_query test_env (empty_query\<lparr>q_page := Some ''2'', q_limit := Some ''5''\<rparr>) =
     Inr \<lparr>mq_status = Some ''published'', mq_category = None, mq_tags = None, mq_author = None\<rparr>"
  by (simp add: build_query_def empty_query_def truthy_def status_param_def)

lemma build_query_empty:
  "build_query test_env empty_query =
     Inr \<lparr>mq_status = Some ''published'', mq_category = None, mq_tags = None, mq_author = None\<rparr>"
  by (simp add: build_query_def empty_query_def truthy_def status_param_def)

lemma cast_author_none:
  "cast_author env \<lparr>mq_status = s, mq_category = c, mq_tags = t, mq_author = None\<rparr> = Inr None"
  by (simp add: cast_author_def)

lemma twelve_posts_published:
  "filter (matches \<lparr>mq_status = Some ''published'', mq_category = None, mq_tags = None,
                     mq_author = None\<rparr> None) twelve_posts = twelve_posts"
  by (simp add: twelve_posts_def numbered_post_def sample_post_def matches_def)

lemma empty_query_page: "q_page empty_query = None" "q_limit empty_query = None"
  by (simp_all add: empty_query_def)

lemma length_twelve_posts: "length twelve_posts = 12"
  by (simp add: twelve_posts_def)

lemma page2_status:
  "statusCode (fst (list_posts test_env twelve_posts
      (empty_query\<lparr>q_page := Some ''2'', q_limit := Some ''5''\<rparr>))) = 200"
proof -
  let ?q = "empty_query\<lparr>q_page := Some ''2'', q_limit := Some ''5''\<rparr>"
  have p: "or_default (parseInt (q_page ?q)) (Whole 1) = Whole 2"
    "or_default (parseInt (q_limit ?q)) (Whole 10) = Whole 5"
    by (simp_all add: parseInt_2_5 or_default_def)
  have f: "Post_find test_env twelve_posts
      \<lparr>mq_status = Some ''published'', mq_category = None, mq_tags = None, mq_author = None\<rparr>
      (num_times (num_minus_one (or_default (parseInt (q_page ?q)) (Whole 1)))
         (or_default (parseInt (q_limit ?q)) (Whole 10)))
      (or_default (parseInt (q_limit ?q)) (Whole 10)) =
      Inr (take (nat \<bar>5\<bar>) (drop (nat 5) (sort_key (\<lambda>p. - createdAt p)
        (filter (matches \<lparr>mq_status = Some ''published'', mq_category = None, mq_tags = None,
                   mq_author = None\<rparr> None) twelve_posts))))"
    unfolding p num_skip_2_5 by (rule Post_find_whole [OF cast_author_none]) simp_all
  from list_posts_found [OF build_query_page2 f cast_author_none] show ?thesis
    by (simp add: json_ok_def)
qed

lemma default_status:
  "statusCode (fst (list_posts test_env [] empty_query)) = 200"
proof -
  have p: "or_default (parseInt (q_page empty_query)) (Whole 1) = Whole 1"
    "or_default (parseInt (q_limit empty_query)) (Whole 10) = Whole 10"
    by (simp_all add: empty_query_page parseInt_None or_default_def)
  have f: "Post_find test_env []
      \<lparr>mq_status = Some ''published'', mq_category = None, mq_tags = None, mq_author = None\<rparr>
      (num_times (num_minus_one (or_default (parseInt (q_page empty_query)) (Whole 1)))
         (or_default (parseInt (q_limit empty_query)) (Whole 10)))
      (or_default (parseInt (q_limit empty_query)) (Whole 10)) =
      Inr (take (nat \<bar>10\<bar>) (drop (nat 0) (sort_key (\<lambda>p. - createdAt p)
        (filter (matches \<lparr>mq_status = Some ''published'', mq_category = None, mq_tags = None,
                   mq_author = None\<rparr> None) []))))"
    unfolding p num_skip_default by (rule Post_find_whole [OF cast_author_none]) simp_all
  from list_posts_found [OF build_query_empty f cast_author_none] show ?thesis
    by (simp add: json_ok_def)
qed

theorem list_pagination_witness:
  "statusCode (fst (list_posts test_env twelve_posts
      (empty_query\<lparr>q_page := Some ''2'', q_limit := Some ''5''\<rparr>))) = 200 \<and>
   (\<exists>posts pg. data (fst (list_posts test_env twelve_posts
        (empty_query\<lparr>q_page := Some ''2'', q_limit := Some ''5''\<rparr>))) = PostsData posts pg \<and>
      length posts = 5 \<and> pages pg = Whole 3 \<and> current pg = Whole 2 \<and> total pg = 12) \<and>
   statusCode (fst (list_posts test_env [] empty_query)) = 200 \<and>
   (\<exists>pg. data (fst (list_posts test_env [] empty_query)) = PostsData [] pg \<and>
      pages pg = Whole 0 \<and> current pg = Whole 1 \<and> total pg = 0)"
proof -
  let ?q = "empty_query\<lparr>q_page := Some ''2'', q_limit := Some ''5''\<rparr>"
  have d: "decimal 2 = ''2''" by code_simp
  have n: "(2::nat) \<le> 2 ^ 53" by simp
  from list_pagination [of test_env twelve_posts ?q] page2_status
  have "\<exists>posts pg. data (fst (list_posts test_env twelve_posts ?q)) = PostsData posts pg \<and>
      length posts = 5 \<and> pages pg = Whole 3 \<and> current pg = Whole 2 \<and> total pg = 12"
    using d n by (auto simp: build_query_page2 cast_author_none twelve_posts_published
        length_twelve_posts parseInt_2_5 or_default_def)
  moreover from list_pagination [of test_env "[]" empty_query] default_status
  have "\<exists>pg. data (fst (list_posts test_env [] empty_query)) = PostsData [] pg \<and>
      pages pg = Whole 0 \<and> current pg = Whole 1 \<and> total pg = 0"
    by (auto simp: build_query_empty cast_author_none empty_query_page)
  ultimately show ?thesis using page2_status default_status by blast
qed

lemma parse_integer_big:
  "parse_integer (Some ''9007199254740993'') = Some 9007199254740993"
  "parse_integer (Some ''1'') = Some 1"
  by (simp_all add: parse_integer_def parse_unsigned_def digits_value_def digit_value_def
      is_white_space_def)

lemma to_Number_big: "to_Number 9007199254740993 = Whole 9007199254740992"
proof -
  have "(2::nat) ^ 53 < 2 ^ 1024" by (rule power_strict_increasing) simp_all
  then have "\<not> (2::nat) ^ 1024 \<le> 9007199254740992" by simp
  then show ?thesis by (simp add: to_Number_def round_to_double_2_53_1)
qed

theorem list_pagination_counterexample:
  "parse_integer (Some ''9007199254740993'') = Some 9007199254740993 \<and>
   fst (list_posts test_env twelve_posts
      (empty_query\<lparr>q_page := Some ''9007199254740993'', q_limit := Some ''1''\<rparr>)) =
     json_ok 200 [] (PostsData [] \<lparr>current = Whole 9007199254740992, pages = Whole 12, total = 12\<rparr>)"
proof -
  let ?q = "empty_query\<lparr>q_page := Some ''9007199254740993'', q_limit := Some ''1''\<rparr>"
  let ?mq = "\<lparr>mq_status = Some ''published'', mq_category = None, mq_tags = None,
              mq_author = None\<rparr>"
  have b: "build_query test_env ?q = Inr ?mq"
    by (simp add: build_query_def empty_query_def truthy_def status_param_def)
  have p: "or_default (parseInt (q_page ?q)) (Whole 1) = Whole 9007199254740992"
    "or_default (parseInt (q_limit ?q)) (Whole 10) = Whole 1"
    using to_Number_exact [of 1]
    by (simp_all add: parseInt_def parse_integer_big to_Number_big or_default_def)
  have k: "num_times (num_minus_one (Whole 9007199254740992)) (Whole 1) = Whole 9007199254740991"
    using to_Number_exact [of 9007199254740991] by simp
  have f: "Post_find test_env twelve_posts ?mq
      (num_times (num_minus_one (or_default (parseInt (q_page ?q)) (Whole 1)))
         (or_default (parseInt (q_limit ?q)) (Whole 10)))
      (or_default (parseInt (q_limit ?q)) (Whole 10)) =
      Inr (take (nat \<bar>1\<bar>) (drop (nat 9007199254740991) (sort_key (\<lambda>p. - createdAt p)
        (filter (matches ?mq None) twelve_posts))))"
    unfolding p k by (rule Post_find_whole [OF cast_author_none]) simp_all
  have e: "take (nat \<bar>1\<bar>) (drop (nat 9007199254740991) (sort_key (\<lambda>p. - createdAt p)
        (filter (matches ?mq None) twelve_posts))) = []"
    by (simp add: twelve_posts_published length_twelve_posts)
  from list_posts_found [OF b f cast_author_none] show ?thesis
    unfolding e p by (simp add: parse_integer_big twelve_posts_published length_twelve_posts
        page_count_def)
qed

section \<open>Tags on creation and update\<close>

lemma split_comma_nonempty: "split_comma s \<noteq> []"
  by (induction s) (auto split: list.splits)

lemma join_split_comma: "join_comma (split_comma s) = s"
proof (induction s)
  case Nil
  show ?case by simp
next
  case (Cons c cs)
  obtain w ws where s: "split_comma cs = w # ws"
    using split_comma_nonempty [of cs] by (cases "split_comma cs") auto
  with Cons show ?case by (cases ws) auto
qed

lemma split_comma_pieces: "w \<in> set (split_comma s) \<Longrightarrow> CHR '','' \<notin> set w"
proof (induction s arbitrary: w)
  case Nil
  then show ?case by simp
next
  case (Cons c cs)
  obtain v vs where s: "split_comma cs = v # vs"
    using split_comma_nonempty [of cs] by (cases "split_comma cs") auto
  with Cons show ?case by (auto split: if_splits)
qed

lemma dropWhile_hd: "dropWhile P xs \<noteq> [] \<Longrightarrow> \<not> P (hd (dropWhile P xs))"
  by (metis hd_dropWhile)

lemma trim_is_trimmed: "is_trimmed_from (trim s) s"
proof -
  let ?P = "is_white_space"
  let ?a = "dropWhile ?P s"
  let ?pre = "takeWhile ?P s"
  let ?suf = "rev (takeWhile ?P (rev ?a))"
  have t: "trim s = rev (dropWhile ?P (rev ?a))" by (simp add: trim_def)
  have "?a = rev (dropWhile ?P (rev ?a)) @ rev (takeWhile ?P (rev ?a))"
    by (metis rev_append rev_rev_ident takeWhile_dropWhile_id)
  then have a: "?a = trim s @ ?suf" unfolding t .
  have "s = ?pre @ ?a" by simp
  with a have s: "s = ?pre @ trim s @ ?suf" by simp
  have pre: "\<forall>c \<in> set ?pre. ?P c" by (auto dest: set_takeWhileD)
  have suf: "\<forall>c \<in> set ?suf. ?P c" by (auto dest: set_takeWhileD)
  have ends: "trim s = [] \<or> (\<not> ?P (hd (trim s)) \<and> \<not> ?P (last (trim s)))"
  proof (cases "trim s = []")
    case True
    then show ?thesis by simp
  next
    case False
    then have ne: "dropWhile ?P (rev ?a) \<noteq> []" by (simp add: t)
    then have l: "\<not> ?P (last (trim s))"
      by (simp add: t last_rev hd_dropWhile)
    from False a have "?a \<noteq> []" by (metis append_is_Nil_conv)
    then have "\<not> ?P (hd ?a)" by (rule dropWhile_hd)
    moreover from a False have "hd ?a = hd (trim s)" by (metis hd_append2)
    ultimately show ?thesis using l by simp
  qed
  from s pre suf ends show ?thesis
    unfolding is_trimmed_from_def by blast
qed

text \<open>
  Claim C5, as amended. For a create input that passes validation the route answers 201 and
  stores the post; its \<^verbatim>\<open>tags\<close> are the pieces of the input string between the commas,
  each trimmed of surrounding white space, when the string is not empty, and the empty
  sequence when \<^verbatim>\<open>tags\<close> is absent or is the empty string; \<^verbatim>\<open>status\<close> is draft when
  none is supplied.
\<close>

theorem create_post_tags:
  assumes "validate_post (new_Post u gen_id now b) = []"
  shows "\<exists>p. create_post db u gen_id now b =
                (json_ok 201 ''Post created successfully'' (PostData p), db @ [p]) \<and>
           author p = user_id u \<and>
           (b_tags b = None \<or> b_tags b = Some [] \<longrightarrow> tags p = []) \<and>
           (\<forall>t. b_tags b = Some t \<and> t \<noteq> [] \<longrightarrow>
                tags p = map trim (split_comma t) \<and> join_comma (split_comma t) = t \<and>
                (\<forall>w \<in> set (split_comma t). CHR '','' \<notin> set w \<and> is_trimmed_from (trim w) w)) \<and>
           (b_status b = None \<longrightarrow> status p = ''draft'')"
proof -
  let ?p = "new_Post u gen_id now b"
  have r: "create_post db u gen_id now b =
      (json_ok 201 ''Post created successfully'' (PostData ?p), db @ [?p])"
    using assms by (simp add: create_post_def try_catch_def)
  have a: "author ?p = user_id u" by (simp add: new_Post_def)
  have e: "b_tags b = None \<or> b_tags b = Some [] \<longrightarrow> tags ?p = []"
    by (auto simp: new_Post_def truthy_def)
  have t: "\<forall>t. b_tags b = Some t \<and> t \<noteq> [] \<longrightarrow>
      tags ?p = map trim (split_comma t) \<and> join_comma (split_comma t) = t \<and>
      (\<forall>w \<in> set (split_comma t). CHR '','' \<notin> set w \<and> is_trimmed_from (trim w) w)"
  proof (intro allI impI conjI ballI)
    fix t assume "b_tags b = Some t \<and> t \<noteq> []"
    then show "tags ?p = map trim (split_comma t)"
      by (simp add: new_Post_def truthy_def split_tags_def)
  next
    fix t show "join_comma (split_comma t) = t" by (rule join_split_comma)
  next
    fix t w assume "w \<in> set (split_comma t)"
    then show "CHR '','' \<notin> set w" by (rule split_comma_pieces)
  next
    fix w show "is_trimmed_from (trim w) w" by (rule trim_is_trimmed)
  qed
  have s: "b_status b = None \<longrightarrow> status ?p = ''draft''"
    by (simp add: new_Post_def truthy_def)
  show ?thesis
    apply (rule exI [of _ ?p])
    apply (intro conjI)
    apply (rule r)
    apply (rule a)
    apply (rule e)
    apply (rule t)
    apply (rule s)
    done
qed


lemma valid_body_ok: "validate_post (new_Post u gen_id now valid_body) = []"
  by (simp add: validate_post_def new_Post_def valid_body_def validate_length_def
      validate_status_def truthy_def)

lemma empty_tags_body_ok: "validate_post (new_Post u gen_id now empty_tags_body) = []"
  by (simp add: validate_post_def new_Post_def valid_body_def empty_tags_body_def
      validate_length_def validate_status_def truthy_def)

lemma valid_body_tags: "b_tags valid_body = Some '' rain ,aquifer''" "b_status valid_body = None"
  by (simp_all add: valid_body_def)

lemma empty_tags_body_tags: "b_tags empty_tags_body = Some []"
  by (simp add: empty_tags_body_def)

lemma trim_rain: "trim '' rain '' = ''rain''" "trim ''aquifer'' = ''aquifer''"
  by (simp_all add: trim_def is_white_space_def)

theorem create_post_tags_witness:
  "(\<exists>p. create_post [] alice oid_a 0 valid_body =
            (json_ok 201 ''Post created successfully'' (PostData p), [p]) \<and>
        tags p = [''rain'', ''aquifer''] \<and> status p = ''draft'') \<and>
   (\<exists>p. create_post [] alice oid_a 0 empty_tags_body =
            (json_ok 201 ''Post created successfully'' (PostData p), [p]) \<and> tags p = [])"
  using create_post_tags [OF valid_body_ok [of alice oid_a 0], of "[]"]
    create_post_tags [OF empty_tags_body_ok [of alice oid_a 0], of "[]"]
  by (auto simp: valid_body_tags empty_tags_body_tags trim_rain)

theorem create_post_tags_counterexample:
  "statusCode (fst (create_post [] alice oid_a 0 empty_tags_body)) = 201 \<and>
   data (fst (create_post [] alice oid_a 0 empty_tags_body)) =
     PostData (new_Post alice oid_a 0 empty_tags_body) \<and>
   b_tags empty_tags_body = Some [] \<and>
   tags (new_Post alice oid_a 0 empty_tags_body) = [] \<and>
   map trim (split_comma []) = [[]]"
proof -
  have "tags (new_Post alice oid_a 0 empty_tags_body) = []"
    by (simp add: new_Post_def empty_tags_body_tags truthy_def)
  then show ?thesis
    by (simp add: create_post_def try_catch_def empty_tags_body_ok json_ok_def
        empty_tags_body_tags trim_def)
qed

lemma put_post_403:
  "findById env db rid = Inr (Some p) \<Longrightarrow> not_authorized (author p) u \<Longrightarrow>
     put_post env db u rid b = (json_fail 403 ''Not authorized to update this post'', db)"
  by (simp add: put_post_def try_catch_def)

lemma put_post_400:
  assumes "findById env db rid = Inr (Some p)" "\<not> not_authorized (author p) u"
    "validate_update b \<noteq> []"
  shows "put_post env db u rid b =
     (json_fail 400 (error_message (ValidationError (validate_update b))), db)"
proof -
  from assms(1) obtain i where "castObjectId env rid = Some i"
    using findById_Some by blast
  with assms show ?thesis
    by (simp add: put_post_def try_catch_def findByIdAndUpdate_def)
qed

lemma put_post_200:
  assumes "findById env db rid = Inr (Some p)" "\<not> not_authorized (author p) u"
    "validate_update b = []"
  shows "put_post env db u rid b =
     (json_ok 200 ''Post updated successfully'' (PostData (apply_update b p p)),
      updateOne (post_id p) (apply_update b p p) db)"
proof -
  from assms(1) obtain i where "castObjectId env rid = Some i"
    "find (\<lambda>q. post_id q = i) db = Some p" "post_id p = i"
    using findById_Some by blast
  with assms show ?thesis
    by (simp add: put_post_def try_catch_def findByIdAndUpdate_def)
qed

text \<open>
  Claim C4, as amended. A PUT on an existing post leaves its \<^verbatim>\<open>author\<close> as it was. When
  \<^verbatim>\<open>tags\<close> is absent or is the empty string the prior tags are retained; when the update
  succeeds and \<^verbatim>\<open>tags\<close> is a non-empty string, the tags are its trimmed pieces. The update
  succeeds exactly when the requester is the author or an admin and the update validators
  pass.
\<close>

theorem put_post_author_tags:
  assumes "findById env db rid = Inr (Some p)"
  shows "\<exists>p'. findById env (snd (put_post env db u rid b)) rid = Inr (Some p') \<and>
           author p' = author p \<and>
           (b_tags b = None \<or> b_tags b = Some [] \<longrightarrow> tags p' = tags p) \<and>
           (\<forall>t. statusCode (fst (put_post env db u rid b)) = 200 \<and> b_tags b = Some t \<and> t \<noteq> [] \<longrightarrow>
                tags p' = map trim (split_comma t)) \<and>
           (statusCode (fst (put_post env db u rid b)) = 200 \<longleftrightarrow>
              (author p = user_id u \<or> role u = ''admin'') \<and> validate_update b = [])"
proof (cases "not_authorized (author p) u")
  case True
  from put_post_403 [OF assms True, of b] assms True show ?thesis
    by (auto simp: json_fail_def not_authorized_def)
next
  case False
  show ?thesis
  proof (cases "validate_update b = []")
    case invalid: False
    from put_post_400 [OF assms False invalid] assms show ?thesis
      using invalid by (auto simp: json_fail_def)
  next
    case valid: True
    let ?p' = "apply_update b p p"
    have r: "put_post env db u rid b =
        (json_ok 200 ''Post updated successfully'' (PostData ?p'), updateOne (post_id p) ?p' db)"
      using assms False valid by (rule put_post_200)
    have f: "findById env (updateOne (post_id p) ?p' db) rid = Inr (Some ?p')"
      using assms by (rule findById_updateOne) (simp add: apply_update_def)
    have a: "author ?p' = author p" by (simp add: apply_update_def)
    have k: "b_tags b = None \<or> b_tags b = Some [] \<longrightarrow> tags ?p' = tags p"
      by (auto simp: apply_update_def truthy_def)
    have t: "\<forall>t. b_tags b = Some t \<and> t \<noteq> [] \<longrightarrow> tags ?p' = map trim (split_comma t)"
      by (simp add: apply_update_def truthy_def split_tags_def)
    have s: "statusCode (fst (put_post env db u rid b)) = 200"
      by (simp add: r json_ok_def)
    from False have au: "author p = user_id u \<or> role u = ''admin''"
      by (auto simp: not_authorized_def)
    have t': "\<forall>t. statusCode (fst (put_post env db u rid b)) = 200 \<and> b_tags b = Some t \<and> t \<noteq> [] \<longrightarrow>
        tags ?p' = map trim (split_comma t)"
      using t by simp
    have s': "statusCode (fst (put_post env db u rid b)) = 200 \<longleftrightarrow>
        (author p = user_id u \<or> role u = ''admin'') \<and> validate_update b = []"
      using s au valid by simp
    have f': "findById env (snd (put_post env db u rid b)) rid = Inr (Some ?p')"
      using f by (simp add: r)
    show ?thesis
      apply (rule exI [of _ ?p'])
      apply (intro conjI)
      apply (rule f')
      apply (rule a)
      apply (rule k)
      apply (rule t')
      apply (rule s')
      done
  qed
qed

lemma alice_post_tags: "tags alice_post = [''water'']" "author alice_post = user_id alice"
  by (simp_all add: alice_post_def sample_post_def)

lemma valid_body_update: "validate_update valid_body = []" "validate_update empty_tags_body = []"
  by (simp_all add: validate_update_def validate_provided_def validate_length_def valid_body_def
      empty_tags_body_def)

theorem put_post_author_tags_witness:
  "(\<exists>p'. findById test_env (snd (put_post test_env [alice_post] alice oid_a valid_body)) oid_a =
            Inr (Some p') \<and>
      author p' = user_id alice \<and> tags p' = [''rain'', ''aquifer'']) \<and>
   (\<exists>p'. findById test_env (snd (put_post test_env [alice_post] alice oid_a empty_body)) oid_a =
            Inr (Some p') \<and>
      author p' = user_id alice \<and> tags p' = [''water''])"
  using put_post_author_tags [OF alice_post_found, of alice valid_body]
    put_post_author_tags [OF alice_post_found, of alice empty_body]
  by (auto simp: alice_post_tags valid_body_update valid_body_tags trim_rain empty_body_def)

theorem put_post_author_tags_counterexample:
  "statusCode (fst (put_post test_env [alice_post] alice oid_a empty_tags_body)) = 200 \<and>
   b_tags empty_tags_body = Some [] \<and>
   map tags (snd (put_post test_env [alice_post] alice oid_a empty_tags_body)) = [[''water'']] \<and>
   map trim (split_comma []) = [[]]"
proof -
  have "\<not> not_authorized (author alice_post) alice"
    by (simp add: not_authorized_def alice_post_tags)
  from put_post_200 [OF alice_post_found this valid_body_update(2)] show ?thesis
    by (simp add: json_ok_def empty_tags_body_tags apply_update_def truthy_def alice_post_def
        sample_post_def trim_def)
qed

section \<open>The category filter\<close>

lemma matches_at_prefix:
  "CHR ''.'' \<notin> set pat \<Longrightarrow>
     matches_at env pat s \<longleftrightarrow> prefix (map (canonicalize env) pat) (map (canonicalize env) s)"
  by (induction env pat s rule: matches_at.induct) (auto simp: atom_matches_def)

lemma matches_somewhere_sublist:
  "CHR ''.'' \<notin> set pat \<Longrightarrow>
     matches_somewhere env pat s \<longleftrightarrow> sublist (map (canonicalize env) pat) (map (canonicalize env) s)"
proof (induction s)
  case Nil
  then show ?case by (cases pat) auto
next
  case (Cons c cs)
  then show ?case
    by (simp add: matches_at_prefix sublist_Cons_right)
qed

text \<open>
  Claim C6, as amended. The category parameter is taken as a regular expression. When it is
  a non-empty string without any regular-expression syntax character, the filter is
  compiled and a category passes it if and only if it contains the parameter as a
  case-insensitive substring.
\<close>

theorem category_filter_literal:
  assumes "q_category q = Some c" and "c \<noteq> []"
    and "set c \<inter> other_syntax_characters = {}" and "CHR ''.'' \<notin> set c"
  shows "\<exists>mq t. build_query env q = Inr mq \<and> mq_category mq = Some t \<and>
           (\<forall>s. t s \<longleftrightarrow> ci_substring env c s) \<and>
           (\<forall>a p. matches mq a p \<longrightarrow> (\<exists>s. category p = Some s \<and> ci_substring env c s))"
proof -
  let ?t = "matches_somewhere env c"
  let ?mq = "\<lparr>mq_status = (if truthy (status_param q) then status_param q else None),
              mq_category = Some ?t,
              mq_tags = (if truthy (q_tags q) then Some (split_comma (the (q_tags q))) else None),
              mq_author = (if truthy (q_author q) then q_author q else None)\<rparr>"
  have b: "build_query env q = Inr ?mq"
    using assms(1-3) by (simp add: build_query_def truthy_def RegExp_i_def)
  have c: "mq_category ?mq = Some ?t" by simp
  have t: "\<forall>s. ?t s \<longleftrightarrow> ci_substring env c s"
    using assms(4) by (simp add: matches_somewhere_sublist ci_substring_def)
  have m: "\<forall>a p. matches ?mq a p \<longrightarrow> (\<exists>s. category p = Some s \<and> ci_substring env c s)"
    using t by (auto simp: matches_def split: option.splits)
  show ?thesis
    apply (rule exI [of _ ?mq])
    apply (rule exI [of _ ?t])
    apply (intro conjI)
    apply (rule b)
    apply (rule c)
    apply (rule t)
    apply (rule m)
    done
qed

theorem category_filter_literal_witness:
  "\<exists>mq t. build_query test_env (empty_query\<lparr>q_category := Some ''ew''\<rparr>) = Inr mq \<and>
      mq_category mq = Some t \<and> t ''News'' \<and> \<not> t ''Water''"
proof -
  have o: "set ''ew'' \<inter> other_syntax_characters = {}"
    by (simp add: other_syntax_characters_def)
  have s: "ci_substring test_env ''ew'' ''News''" "\<not> ci_substring test_env ''ew'' ''Water''"
    by (simp_all add: ci_substring_def test_env_def ascii_upper_def sublist_Cons_right)
  from category_filter_literal [of "empty_query\<lparr>q_category := Some ''ew''\<rparr>" "''ew''" test_env] o s
  show ?thesis by (auto simp: empty_query_def)
qed

theorem category_filter_counterexample:
  "map category (case data (fst (list_posts test_env three_posts
       (empty_query\<lparr>q_category := Some ''.'', q_status := Some []\<rparr>))) of
      PostsData posts pg \<Rightarrow> posts | _ \<Rightarrow> []) = [Some ''News'', Some ''News'', Some ''News''] \<and>
   \<not> ci_substring test_env ''.'' ''News''"
proof -
  let ?q = "empty_query\<lparr>q_category := Some ''.'', q_status := Some []\<rparr>"
  let ?mq = "\<lparr>mq_status = None, mq_category = Some (matches_somewhere test_env ''.''),
              mq_tags = None, mq_author = None\<rparr>"
  have b: "build_query test_env ?q = Inr ?mq"
    by (simp add: build_query_def empty_query_def truthy_def status_param_def RegExp_i_def
        other_syntax_characters_def)
  have m: "filter (matches ?mq None) three_posts = three_posts"
    by (simp add: three_posts_def sample_post_def matches_def atom_matches_def
        is_line_terminator_def)
  have p: "or_default (parseInt (q_page ?q)) (Whole 1) = Whole 1"
    "or_default (parseInt (q_limit ?q)) (Whole 10) = Whole 10"
    by (simp_all add: empty_query_def parseInt_None or_default_def)
  have f: "Post_find test_env three_posts ?mq
      (num_times (num_minus_one (or_default (parseInt (q_page ?q)) (Whole 1)))
         (or_default (parseInt (q_limit ?q)) (Whole 10)))
      (or_default (parseInt (q_limit ?q)) (Whole 10)) =
      Inr (take (nat \<bar>10\<bar>) (drop (nat 0) (sort_key (\<lambda>p. - createdAt p)
        (filter (matches ?mq None) three_posts))))"
    unfolding p num_skip_default by (rule Post_find_whole [OF cast_author_none]) simp_all
  have "map category (take (nat \<bar>10\<bar>) (drop (nat 0) (sort_key (\<lambda>p. - createdAt p)
        (filter (matches ?mq None) three_posts)))) = [Some ''News'', Some ''News'', Some ''News'']"
    unfolding m by (simp add: three_posts_def sample_post_def)
  moreover have "\<not> ci_substring test_env ''.'' ''News''"
    by (simp add: ci_substring_def test_env_def ascii_upper_def sublist_Cons_right)
  ultimately show ?thesis
    using list_posts_found [OF b f cast_author_none] by (simp add: json_ok_def)
qed

section \<open>Malformed ids and comments\<close>

text \<open>
  Claim C7. A GET for one post whose id is no ObjectId is answered by the route's own
  \<^verbatim>\<open>catch\<close> block with 500; the cast error never reaches the global error handler, which
  would answer it with 400.
\<close>

theorem get_post_malformed_id:
  "castObjectId test_env ''not-an-id'' = None \<and>
   statusCode (fst (get_post test_env [alice_post] ''not-an-id'')) = 500 \<and>
   statusCode (fst (delete_post test_env [alice_post] alice ''not-an-id'')) = 500 \<and>
   statusCode (fst (like_post test_env [alice_post] alice ''not-an-id'')) = 500 \<and>
   statusCode (fst (delete_comment test_env [alice_post] alice ''not-an-id'' ''c00000000000000000000001'')) = 500 \<and>
   statusCode (fst (put_post test_env [alice_post] alice ''not-an-id'' empty_body)) = 400 \<and>
   statusCode (global_error_handler (CastError ''not-an-id'')) = 400"
  by (simp add: test_env_def hex24_def get_post_def delete_post_def like_post_def
      delete_comment_def put_post_def findById_def try_catch_def json_fail_def
      global_error_handler_def)

lemma cast_failure_status:
  assumes "castObjectId env rid = None"
  shows "statusCode (fst (get_post env db rid)) = 500"
    and "statusCode (fst (put_post env db u rid b)) = 400"
    and "statusCode (fst (delete_post env db u rid)) = 500"
    and "statusCode (fst (like_post env db u rid)) = 500"
    and "statusCode (fst (add_comment env db u g now rid c)) = 400"
    and "statusCode (fst (delete_comment env db u rid cid)) = 500"
  using assms
  by (simp_all add: get_post_def put_post_def delete_post_def like_post_def add_comment_def
      delete_comment_def findById_def try_catch_def json_fail_def)

text \<open>
  Claim C8. A comment request with an absent or empty \<^verbatim>\<open>content\<close> fails (400, or 404 when
  there is no such post) and appends nothing. With a non-empty \<^verbatim>\<open>content\<close> on an existing
  post the answer is 201 with the new comment, made of the requester, the content, the
  current time and the generated id, and the stored post has exactly that comment appended
  to its comments.
\<close>

theorem add_comment_content:
  "((body_content = None \<or> body_content = Some []) \<longrightarrow>
      statusCode (fst (add_comment env db u gen_id now rid body_content)) \<in> {400, 404} \<and>
      \<not> success (fst (add_comment env db u gen_id now rid body_content)) \<and>
      snd (add_comment env db u gen_id now rid body_content) = db) \<and>
   (\<forall>p c. findById env db rid = Inr (Some p) \<and> body_content = Some c \<and> c \<noteq> [] \<longrightarrow>
      statusCode (fst (add_comment env db u gen_id now rid body_content)) = 201 \<and>
      data (fst (add_comment env db u gen_id now rid body_content)) =
        CommentData \<lparr>c_id = gen_id, c_user = user_id u, c_content = Some c, c_createdAt = now\<rparr> \<and>
      (\<exists>p'. findById env (snd (add_comment env db u gen_id now rid body_content)) rid = Inr (Some p') \<and>
         comments p' = comments p @
           [\<lparr>c_id = gen_id, c_user = user_id u, c_content = Some c, c_createdAt = now\<rparr>]))"
proof (intro conjI impI allI)
  assume e: "body_content = None \<or> body_content = Some []"
  then have v: "\<not> truthy body_content" by (auto simp: truthy_def)
  then show "statusCode (fst (add_comment env db u gen_id now rid body_content)) \<in> {400, 404}"
    by (auto simp: add_comment_def try_catch_def json_fail_def validate_comment_def Let_def
        split: sum.splits option.splits)
  from v show "\<not> success (fst (add_comment env db u gen_id now rid body_content))"
    by (auto simp: add_comment_def try_catch_def json_fail_def validate_comment_def Let_def
        split: sum.splits option.splits)
  from v show "snd (add_comment env db u gen_id now rid body_content) = db"
    by (auto simp: add_comment_def try_catch_def json_fail_def validate_comment_def Let_def
        split: sum.splits option.splits)
next
  fix p c
  assume a: "findById env db rid = Inr (Some p) \<and> body_content = Some c \<and> c \<noteq> []"
  let ?c = "\<lparr>c_id = gen_id, c_user = user_id u, c_content = Some c, c_createdAt = now\<rparr>"
  let ?p' = "p\<lparr>comments := comments p @ [?c]\<rparr>"
  from a have r: "add_comment env db u gen_id now rid body_content =
      (json_ok 201 ''Comment added successfully'' (CommentData ?c), updateOne (post_id p) ?p' db)"
    by (simp add: add_comment_def try_catch_def validate_comment_def truthy_def Let_def)
  show "statusCode (fst (add_comment env db u gen_id now rid body_content)) = 201"
    by (simp add: r json_ok_def)
  show "data (fst (add_comment env db u gen_id now rid body_content)) = CommentData ?c"
    by (simp add: r json_ok_def)
  from a have "findById env db rid = Inr (Some p)" by simp
  then have "findById env (updateOne (post_id p) ?p' db) rid = Inr (Some ?p')"
    by (rule findById_updateOne) simp
  then show "\<exists>p'. findById env (snd (add_comment env db u gen_id now rid body_content)) rid =
      Inr (Some p') \<and> comments p' = comments p @ [?c]"
    by (simp add: r)
qed

theorem add_comment_content_witness:
  "statusCode (fst (add_comment test_env [alice_post] bob ''c00000000000000000000001'' 6 oid_a None)) \<in> {400, 404} \<and>
   snd (add_comment test_env [alice_post] bob ''c00000000000000000000001'' 6 oid_a (Some [])) = [alice_post] \<and>
   statusCode (fst (add_comment test_env [alice_post] bob ''c00000000000000000000001'' 6 oid_a (Some ''nice''))) = 201 \<and>
   (\<exists>p'. findById test_env
            (snd (add_comment test_env [alice_post] bob ''c00000000000000000000001'' 6 oid_a (Some ''nice'')))
            oid_a = Inr (Some p') \<and>
      comments p' = [\<lparr>c_id = ''c00000000000000000000001'', c_user = user_id bob,
                      c_content = Some ''nice'', c_createdAt = 6\<rparr>])"
  using add_comment_content [of None test_env "[alice_post]" bob "''c00000000000000000000001''" 6 oid_a]
    add_comment_content [of "Some []" test_env "[alice_post]" bob "''c00000000000000000000001''" 6 oid_a]
    add_comment_content [of "Some ''nice''" test_env "[alice_post]" bob "''c00000000000000000000001''" 6 oid_a]
    alice_post_found
  by (auto simp: alice_post_def sample_post_def)

lemma find_filter_distinct:
  "find (\<lambda>x. c_id x = i) cs = Some c \<Longrightarrow> distinct (map c_id cs) \<Longrightarrow>
     \<exists>xs ys. cs = xs @ c # ys \<and> filter (\<lambda>x. c_id x \<noteq> i) cs = xs @ ys"
proof (induction cs)
  case Nil
  then show ?case by simp
next
  case (Cons x cs)
  show ?case
  proof (cases "c_id x = i")
    case True
    with Cons.prems have "x = c" "\<forall>y \<in> set cs. c_id y \<noteq> i"
      by (auto simp: image_iff)
    then have "x # cs = [] @ c # cs \<and> filter (\<lambda>x. c_id x \<noteq> i) (x # cs) = [] @ cs"
      using True by simp
    then show ?thesis by blast
  next
    case False
    with Cons obtain xs ys where "cs = xs @ c # ys" "filter (\<lambda>x. c_id x \<noteq> i) cs = xs @ ys"
      by auto
    with False have "x # cs = (x # xs) @ c # ys \<and>
        filter (\<lambda>x. c_id x \<noteq> i) (x # cs) = (x # xs) @ ys"
      by simp
    then show ?thesis by blast
  qed
qed

text \<open>
  Claim C9. When the post exists, holds the comment with the given id and the requester is
  the comment's author or an admin, the route answers 200 and the stored post's comments are
  the original sequence with that one comment taken out, the others in their order. Comment
  ids are unique within a post, as the data model has it.
\<close>

theorem delete_comment_exact:
  assumes "findById env db rid = Inr (Some p)"
    and "comments_id env (comments p) cid = Some c"
    and "c_user c = user_id u \<or> role u = ''admin''"
    and "distinct (map c_id (comments p))"
  shows "statusCode (fst (delete_comment env db u rid cid)) = 200 \<and>
         (\<exists>p' xs ys. findById env (snd (delete_comment env db u rid cid)) rid = Inr (Some p') \<and>
            comments p = xs @ c # ys \<and> comments p' = xs @ ys)"
proof -
  let ?p' = "p\<lparr>comments := remove_comment c (comments p)\<rparr>"
  from assms(3) have au: "\<not> not_authorized (c_user c) u"
    by (auto simp: not_authorized_def)
  with assms(1,2) have r: "delete_comment env db u rid cid =
      (json_ok 200 ''Comment deleted successfully'' NoData, updateOne (post_id p) ?p' db)"
    by (simp add: delete_comment_def try_catch_def)
  from assms(2) obtain i where i: "find (\<lambda>x. c_id x = i) (comments p) = Some c"
    by (auto simp: comments_id_def split: option.splits)
  then have ci: "c_id c = i" by (auto simp: find_Some_iff)
  from find_filter_distinct [OF i assms(4)] obtain xs ys where
    s: "comments p = xs @ c # ys" "filter (\<lambda>x. c_id x \<noteq> i) (comments p) = xs @ ys"
    by blast
  have f: "findById env (updateOne (post_id p) ?p' db) rid = Inr (Some ?p')"
    using assms(1) by (rule findById_updateOne) simp
  have "comments ?p' = xs @ ys"
    using s(2) ci by (simp add: remove_comment_def)
  with f s(1) have "\<exists>p' xs ys. findById env (updateOne (post_id p) ?p' db) rid = Inr (Some p') \<and>
      comments p = xs @ c # ys \<and> comments p' = xs @ ys"
    by blast
  then show ?thesis by (simp add: r json_ok_def)
qed

lemma commented_post_found: "findById test_env [commented_post] oid_a = Inr (Some commented_post)"
  by (simp add: findById_def test_env_def hex24_def oid_a_def commented_post_def alice_post_def
      sample_post_def)

lemma commented_post_comments:
  "comments commented_post =
     [\<lparr>c_id = ''c00000000000000000000001'', c_user = user_id bob, c_content = Some ''nice'',
       c_createdAt = 6\<rparr>,
      \<lparr>c_id = ''c00000000000000000000002'', c_user = user_id alice, c_content = Some ''thanks'',
       c_createdAt = 7\<rparr>]"
  by (simp add: commented_post_def)

theorem delete_comment_exact_witness:
  "statusCode (fst (delete_comment test_env [commented_post] bob oid_a ''c00000000000000000000001'')) = 200 \<and>
   (\<exists>p'. findById test_env
            (snd (delete_comment test_env [commented_post] bob oid_a ''c00000000000000000000001''))
            oid_a = Inr (Some p') \<and>
      comments p' = [\<lparr>c_id = ''c00000000000000000000002'', c_user = user_id alice,
                      c_content = Some ''thanks'', c_createdAt = 7\<rparr>])"
proof -
  let ?c = "\<lparr>c_id = ''c00000000000000000000001'', c_user = user_id bob, c_content = Some ''nice'',
             c_createdAt = 6\<rparr>"
  have i: "comments_id test_env (comments commented_post) ''c00000000000000000000001'' = Some ?c"
    by (simp add: comments_id_def test_env_def hex24_def commented_post_comments)
  have a: "c_user ?c = user_id bob \<or> role bob = ''admin''" by simp
  have d: "distinct (map c_id (comments commented_post))"
    by (simp add: commented_post_comments)
  from delete_comment_exact [OF commented_post_found i a d] show ?thesis
    by (auto simp: commented_post_comments Cons_eq_append_conv)
qed

section \<open>The status filter\<close>

lemma build_query_status:
  assumes "build_query env q = Inr mq"
  shows "mq_status mq = (if truthy (status_param q) then status_param q else None)"
proof (cases "if truthy (q_category q) then map_sum id Some (RegExp_i env (the (q_category q)))
              else Inr None")
  case (Inl e)
  with assms show ?thesis by (simp add: build_query_def)
next
  case (Inr cat)
  with assms show ?thesis by (auto simp: build_query_def)
qed

lemma matches_status_None: "mq_status mq = None \<Longrightarrow> matches mq a (p\<lparr>status := s\<rparr>) = matches mq a p"
  by (cases "mq_category mq"; cases "mq_tags mq"; cases a) (simp_all add: matches_def)

lemma matches_status_Some: "mq_status mq = Some s \<Longrightarrow> matches mq a p \<Longrightarrow> status p = s"
  by (simp add: matches_def)

lemma filter_restatus:
  "mq_status mq = None \<Longrightarrow>
     filter (matches mq a) (map (\<lambda>p. p\<lparr>status := f p\<rparr>) db) =
     map (\<lambda>p. p\<lparr>status := f p\<rparr>) (filter (matches mq a) db)"
  by (induction db) (simp_all add: matches_status_None)

lemma insort_restatus:
  "insort_key (\<lambda>p. - createdAt p) (x\<lparr>status := f x\<rparr>) (map (\<lambda>p. p\<lparr>status := f p\<rparr>) xs) =
     map (\<lambda>p. p\<lparr>status := f p\<rparr>) (insort_key (\<lambda>p. - createdAt p) x xs)"
  by (induction xs) simp_all

lemma sort_restatus:
  "sort_key (\<lambda>p. - createdAt p) (map (\<lambda>p. p\<lparr>status := f p\<rparr>) xs) =
     map (\<lambda>p. p\<lparr>status := f p\<rparr>) (sort_key (\<lambda>p. - createdAt p) xs)"
  by (induction xs) (simp_all add: insort_restatus)

lemma Post_find_restatus:
  "mq_status mq = None \<Longrightarrow>
     Post_find env (map (\<lambda>p. p\<lparr>status := f p\<rparr>) db) mq skip limit =
     map_sum id (map (\<lambda>p. p\<lparr>status := f p\<rparr>)) (Post_find env db mq skip limit)"
  by (simp add: Post_find_def filter_restatus sort_restatus take_map drop_map
      split: sum.splits option.splits)

lemma Post_find_subset:
  assumes "Post_find env db mq skip limit = Inr ps"
  shows "\<exists>a. cast_author env mq = Inr a \<and> set ps \<subseteq> set (filter (matches mq a) db)"
proof -
  from Post_find_cases [of env db mq skip limit] assms obtain a sk l where
    a: "cast_author env mq = Inr a" and
    ps: "ps = (if l = 0
               then drop (nat sk) (sort_key (\<lambda>p. - createdAt p) (filter (matches mq a) db))
               else take (nat \<bar>l\<bar>)
                      (drop (nat sk) (sort_key (\<lambda>p. - createdAt p) (filter (matches mq a) db))))"
    by auto
  define srt where "srt = sort_key (\<lambda>p. - createdAt p) (filter (matches mq a) db)"
  have "set (drop (nat sk) srt) \<subseteq> set srt"
    by (rule set_drop_subset)
  moreover have "set (take (nat \<bar>l\<bar>) (drop (nat sk) srt)) \<subseteq> set srt"
    by (meson set_take_subset set_drop_subset subset_trans)
  moreover have "ps = (if l = 0 then drop (nat sk) srt else take (nat \<bar>l\<bar>) (drop (nat sk) srt))"
    unfolding srt_def by (rule ps)
  ultimately have "set ps \<subseteq> set srt" by (cases "l = 0") simp_all
  then have "set ps \<subseteq> set (filter (matches mq a) db)" by (simp add: srt_def)
  with a show ?thesis by blast
qed

lemma list_posts_returned:
  assumes "build_query env q = Inr mq"
  shows "statusCode (fst (list_posts env db q)) =
           (case Post_find env db mq
                   (num_times (num_minus_one (or_default (parseInt (q_page q)) (Whole 1)))
                      (or_default (parseInt (q_limit q)) (Whole 10)))
                   (or_default (parseInt (q_limit q)) (Whole 10)) of
              Inl e \<Rightarrow> 500 | Inr ps \<Rightarrow> 200) \<and>
         returned_posts (fst (list_posts env db q)) =
           (case Post_find env db mq
                   (num_times (num_minus_one (or_default (parseInt (q_page q)) (Whole 1)))
                      (or_default (parseInt (q_limit q)) (Whole 10)))
                   (or_default (parseInt (q_limit q)) (Whole 10)) of
              Inl e \<Rightarrow> [] | Inr ps \<Rightarrow> ps)"
proof (cases "Post_find env db mq
                   (num_times (num_minus_one (or_default (parseInt (q_page q)) (Whole 1)))
                      (or_default (parseInt (q_limit q)) (Whole 10)))
                   (or_default (parseInt (q_limit q)) (Whole 10))")
  case (Inl e)
  from list_posts_error(2) [OF assms Inl] Inl show ?thesis
    by (simp add: json_fail_def returned_posts_def)
next
  case (Inr ps)
  from Post_find_subset [OF Inr] obtain a where "cast_author env mq = Inr a" by blast
  from list_posts_found [OF assms Inr this] Inr show ?thesis
    by (simp add: json_ok_def returned_posts_def)
qed

lemma list_posts_no_query:
  assumes "build_query env q = Inl e"
  shows "statusCode (fst (list_posts env db q)) = 500 \<and> returned_posts (fst (list_posts env db q)) = []"
  using list_posts_error(1) [OF assms] by (simp add: json_fail_def returned_posts_def)

lemma build_query_only_status:
  assumes "q_category q = None" "q_tags q = None" "q_author q = None"
  shows "build_query env q =
     Inr \<lparr>mq_status = (if truthy (status_param q) then status_param q else None),
          mq_category = None, mq_tags = None, mq_author = None\<rparr>"
  using assms by (simp add: build_query_def truthy_def)

lemma list_posts_first_page:
  assumes "q_category q = None" "q_tags q = None" "q_author q = None"
    and "q_page q = None" "q_limit q = None"
  shows "statusCode (fst (list_posts env db q)) = 200 \<and>
         returned_posts (fst (list_posts env db q)) =
           take 10 (sort_key (\<lambda>p. - createdAt p)
             (filter (matches \<lparr>mq_status = (if truthy (status_param q) then status_param q else None),
                mq_category = None, mq_tags = None, mq_author = None\<rparr> None) db))"
proof -
  let ?mq = "\<lparr>mq_status = (if truthy (status_param q) then status_param q else None),
              mq_category = None, mq_tags = None, mq_author = None\<rparr>"
  have b: "build_query env q = Inr ?mq"
    using assms(1-3) by (rule build_query_only_status)
  have p: "or_default (parseInt (q_page q)) (Whole 1) = Whole 1"
    "or_default (parseInt (q_limit q)) (Whole 10) = Whole 10"
    using assms(4,5) by (simp_all add: parseInt_None or_default_def)
  have f: "Post_find env db ?mq
      (num_times (num_minus_one (or_default (parseInt (q_page q)) (Whole 1)))
         (or_default (parseInt (q_limit q)) (Whole 10)))
      (or_default (parseInt (q_limit q)) (Whole 10)) =
      Inr (take (nat \<bar>10\<bar>) (drop (nat 0) (sort_key (\<lambda>p. - createdAt p)
        (filter (matches ?mq None) db))))"
    unfolding p num_skip_default by (rule Post_find_whole [OF cast_author_none]) simp_all
  from list_posts_returned [OF b, of db] show ?thesis
    unfolding f by simp
qed

text \<open>
  Claim C10. When the \<^verbatim>\<open>status\<close> parameter is present and empty the list route applies no
  status filter: changing the statuses of the stored posts changes neither the answer's
  code nor which posts it returns, and with no other parameter the route returns the ten
  newest posts whatever their status. When the parameter is absent every returned post is
  published, and with no other parameter the route returns the ten newest published posts.
\<close>

theorem empty_status_drops_filter:
  "(q_status q = Some [] \<longrightarrow>
      (\<forall>f. statusCode (fst (list_posts env (map (\<lambda>p. p\<lparr>status := f p\<rparr>) db) q)) =
             statusCode (fst (list_posts env db q)) \<and>
           returned_posts (fst (list_posts env (map (\<lambda>p. p\<lparr>status := f p\<rparr>) db) q)) =
             map (\<lambda>p. p\<lparr>status := f p\<rparr>) (returned_posts (fst (list_posts env db q))))) \<and>
   (q_status q = Some [] \<and> q_category q = None \<and> q_tags q = None \<and> q_author q = None \<and>
    q_page q = None \<and> q_limit q = None \<longrightarrow>
      statusCode (fst (list_posts env db q)) = 200 \<and>
      returned_posts (fst (list_posts env db q)) = take 10 (sort_key (\<lambda>p. - createdAt p) db)) \<and>
   (q_status q = None \<longrightarrow>
      (\<forall>p \<in> set (returned_posts (fst (list_posts env db q))). status p = ''published'')) \<and>
   (q_status q = None \<and> q_category q = None \<and> q_tags q = None \<and> q_author q = None \<and>
    q_page q = None \<and> q_limit q = None \<longrightarrow>
      statusCode (fst (list_posts env db q)) = 200 \<and>
      returned_posts (fst (list_posts env db q)) =
        take 10 (sort_key (\<lambda>p. - createdAt p) (filter (\<lambda>p. status p = ''published'') db)))"
proof (intro conjI impI allI ballI)
  fix f
  assume e: "q_status q = Some []"
  let ?db' = "map (\<lambda>p. p\<lparr>status := f p\<rparr>) db"
  have "statusCode (fst (list_posts env ?db' q)) = statusCode (fst (list_posts env db q)) \<and>
        returned_posts (fst (list_posts env ?db' q)) =
          map (\<lambda>p. p\<lparr>status := f p\<rparr>) (returned_posts (fst (list_posts env db q)))"
  proof (cases "build_query env q")
    case (Inl err)
    then show ?thesis by (simp add: list_posts_no_query)
  next
    case (Inr mq)
    with e have n: "mq_status mq = None"
      by (simp add: build_query_status [OF Inr] status_param_def truthy_def)
    show ?thesis
      using list_posts_returned [OF Inr, of db] list_posts_returned [OF Inr, of ?db']
      by (simp add: Post_find_restatus [OF n] split: sum.splits)
  qed
  then show "statusCode (fst (list_posts env ?db' q)) = statusCode (fst (list_posts env db q))"
    and "returned_posts (fst (list_posts env ?db' q)) =
          map (\<lambda>p. p\<lparr>status := f p\<rparr>) (returned_posts (fst (list_posts env db q)))"
    by simp_all
next
  assume a: "q_status q = Some [] \<and> q_category q = None \<and> q_tags q = None \<and> q_author q = None \<and>
    q_page q = None \<and> q_limit q = None"
  then have s: "(if truthy (status_param q) then status_param q else None) = None"
    by (simp add: status_param_def truthy_def)
  from a have r: "statusCode (fst (list_posts env db q)) = 200 \<and>
      returned_posts (fst (list_posts env db q)) =
        take 10 (sort_key (\<lambda>p. - createdAt p)
          (filter (matches \<lparr>mq_status = None, mq_category = None, mq_tags = None,
             mq_author = None\<rparr> None) db))"
    using list_posts_first_page [of q env db] unfolding s by simp
  have m: "filter (matches \<lparr>mq_status = None, mq_category = None, mq_tags = None,
             mq_author = None\<rparr> None) db = db"
    by (simp add: matches_def)
  from r show "statusCode (fst (list_posts env db q)) = 200" by simp
  from r show "returned_posts (fst (list_posts env db q)) = take 10 (sort_key (\<lambda>p. - createdAt p) db)"
    unfolding m by simp
next
  fix p
  assume n: "q_status q = None" and p: "p \<in> set (returned_posts (fst (list_posts env db q)))"
  show "status p = ''published''"
  proof (cases "build_query env q")
    case (Inl err)
    with p show ?thesis by (simp add: list_posts_no_query)
  next
    case (Inr mq)
    from n have s: "mq_status mq = Some ''published''"
      by (simp add: build_query_status [OF Inr] status_param_def truthy_def)
    show ?thesis
    proof (cases "Post_find env db mq
                   (num_times (num_minus_one (or_default (parseInt (q_page q)) (Whole 1)))
                      (or_default (parseInt (q_limit q)) (Whole 10)))
                   (or_default (parseInt (q_limit q)) (Whole 10))")
      case (Inl err)
      with p show ?thesis by (simp add: list_posts_returned [OF Inr])
    next
      case found: (Inr ps)
      with p have "p \<in> set ps" by (simp add: list_posts_returned [OF Inr])
      moreover from Post_find_subset [OF found] obtain a where
        "set ps \<subseteq> set (filter (matches mq a) db)" by blast
      ultimately have "matches mq a p" by auto
      with s show ?thesis by (rule matches_status_Some)
    qed
  qed
next
  assume a: "q_status q = None \<and> q_category q = None \<and> q_tags q = None \<and> q_author q = None \<and>
    q_page q = None \<and> q_limit q = None"
  then have s: "(if truthy (status_param q) then status_param q else None) = Some ''published''"
    by (simp add: status_param_def truthy_def)
  from a have r: "statusCode (fst (list_posts env db q)) = 200 \<and>
      returned_posts (fst (list_posts env db q)) =
        take 10 (sort_key (\<lambda>p. - createdAt p)
          (filter (matches \<lparr>mq_status = Some ''published'', mq_category = None, mq_tags = None,
             mq_author = None\<rparr> None) db))"
    using list_posts_first_page [of q env db] unfolding s by simp
  have m: "filter (matches \<lparr>mq_status = Some ''published'', mq_category = None, mq_tags = None,
             mq_author = None\<rparr> None) db = filter (\<lambda>p. status p = ''published'') db"
    by (rule filter_cong) (simp_all add: matches_def)
  from r show "statusCode (fst (list_posts env db q)) = 200" by simp
  from r show "returned_posts (fst (list_posts env db q)) =
      take 10 (sort_key (\<lambda>p. - createdAt p) (filter (\<lambda>p. status p = ''published'') db))"
    unfolding m by simp
qed

lemma three_posts_newest_first:
  "map status (take 10 (sort_key (\<lambda>p. - createdAt p) three_posts)) =
     [''archived'', ''published'', ''draft'']"
  "map status (take 10 (sort_key (\<lambda>p. - createdAt p)
     (filter (\<lambda>p. status p = ''published'') three_posts))) = [''published'']"
  by (simp_all add: three_posts_def sample_post_def)

theorem empty_status_drops_filter_witness:
  "statusCode (fst (list_posts test_env three_posts (empty_query\<lparr>q_status := Some []\<rparr>))) = 200 \<and>
   map status (returned_posts
     (fst (list_posts test_env three_posts (empty_query\<lparr>q_status := Some []\<rparr>)))) =
     [''archived'', ''published'', ''draft''] \<and>
   statusCode (fst (list_posts test_env three_posts empty_query)) = 200 \<and>
   map status (returned_posts (fst (list_posts test_env three_posts empty_query))) =
     [''published'']"
proof -
  let ?q = "empty_query\<lparr>q_status := Some []\<rparr>"
  have q1: "q_status ?q = Some [] \<and> q_category ?q = None \<and> q_tags ?q = None \<and>
      q_author ?q = None \<and> q_page ?q = None \<and> q_limit ?q = None"
    by (simp add: empty_query_def)
  have q2: "q_status empty_query = None \<and> q_category empty_query = None \<and>
      q_tags empty_query = None \<and> q_author empty_query = None \<and> q_page empty_query = None \<and>
      q_limit empty_query = None"
    by (simp add: empty_query_def)
  note t1 = empty_status_drops_filter [of ?q test_env three_posts,
      THEN conjunct2, THEN conjunct1, THEN mp, OF q1]
  note t2 = empty_status_drops_filter [of empty_query test_env three_posts,
      THEN conjunct2, THEN conjunct2, THEN conjunct2, THEN mp, OF q2]
  show ?thesis
    apply (intro conjI)
       apply (rule t1 [THEN conjunct1])
      apply (simp only: t1 [THEN conjunct2] three_posts_newest_first)
     apply (rule t2 [THEN conjunct1])
    apply (simp only: t2 [THEN conjunct2] three_posts_newest_first)
    done
qed

end
